theory Spec2Isabelle
  imports Complex_Main "HOL-Library.Stream"
begin

section \<open>Scalars of the sampling engine\<close>

text \<open>
  The samplers of \<^verbatim>\<open>Base/mcmc.py\<close> compute with IEEE floating-point scalars: a
  log-prior may be \<^verbatim>\<open>-torch.inf\<close>, a difference of two infinite log-posteriors
  is NaN, and a comparison with NaN is false. The type \<open>fl\<close> keeps these special values
  and the rules by which they propagate; finite values are real numbers, and the two zeros
  are one. The drivers are modelled without the rounding, overflow and underflow of finite
  values; the section on rounding models the arithmetic of the acceptance probabilities
  with each result rounded.
\<close>

datatype fl = NaN | NegInf | Finite real | PosInf

fun fneg :: "fl \<Rightarrow> fl" where
  "fneg NaN = NaN"
| "fneg NegInf = PosInf"
| "fneg (Finite x) = Finite (- x)"
| "fneg PosInf = NegInf"

fun fadd :: "fl \<Rightarrow> fl \<Rightarrow> fl" where
  "fadd NaN _ = NaN"
| "fadd _ NaN = NaN"
| "fadd PosInf NegInf = NaN"
| "fadd NegInf PosInf = NaN"
| "fadd PosInf _ = PosInf"
| "fadd _ PosInf = PosInf"
| "fadd NegInf _ = NegInf"
| "fadd _ NegInf = NegInf"
| "fadd (Finite x) (Finite y) = Finite (x + y)"

definition fsub :: "fl \<Rightarrow> fl \<Rightarrow> fl" where
  "fsub a b = fadd a (fneg b)"

text \<open>The sign of a scalar: \<open>-1\<close>, \<open>0\<close> or \<open>1\<close>; NaN has none.\<close>

fun fsign :: "fl \<Rightarrow> real option" where
  "fsign NaN = None"
| "fsign NegInf = Some (- 1)"
| "fsign (Finite x) = Some (sgn x)"
| "fsign PosInf = Some 1"

definition finf :: "real \<Rightarrow> fl" where
  "finf s = (if s < 0 then NegInf else PosInf)"

fun fmul :: "fl \<Rightarrow> fl \<Rightarrow> fl" where
  "fmul (Finite x) (Finite y) = Finite (x * y)"
| "fmul a b =
     (case (fsign a, fsign b) of
        (Some s, Some t) \<Rightarrow> if s * t = 0 then NaN else finf (s * t)
      | _ \<Rightarrow> NaN)"

text \<open>
  Division of tensors and of Python floats taken from tensors: a finite non-zero value
  over zero is an infinity, zero over zero and infinity over infinity are NaN, a finite
  value over an infinity is zero.
\<close>

fun fdiv :: "fl \<Rightarrow> fl \<Rightarrow> fl" where
  "fdiv NaN _ = NaN"
| "fdiv _ NaN = NaN"
| "fdiv (Finite x) (Finite y) =
     (if y \<noteq> 0 then Finite (x / y) else if x = 0 then NaN else finf x)"
| "fdiv (Finite x) _ = Finite 0"
| "fdiv a (Finite y) =
     (case fsign a of Some s \<Rightarrow> finf (if y < 0 then - s else s) | None \<Rightarrow> NaN)"
| "fdiv _ _ = NaN"

fun fexp :: "fl \<Rightarrow> fl" where
  "fexp NaN = NaN"
| "fexp NegInf = Finite 0"
| "fexp (Finite x) = Finite (exp x)"
| "fexp PosInf = PosInf"

fun flog :: "fl \<Rightarrow> fl" where
  "flog NaN = NaN"
| "flog NegInf = NaN"
| "flog (Finite x) = (if 0 < x then Finite (ln x) else if x = 0 then NegInf else NaN)"
| "flog PosInf = PosInf"

fun fsqrt :: "fl \<Rightarrow> fl" where
  "fsqrt NaN = NaN"
| "fsqrt NegInf = NaN"
| "fsqrt (Finite x) = (if 0 \<le> x then Finite (sqrt x) else NaN)"
| "fsqrt PosInf = PosInf"

fun fabs :: "fl \<Rightarrow> fl" where
  "fabs NaN = NaN"
| "fabs NegInf = PosInf"
| "fabs (Finite x) = Finite \<bar>x\<bar>"
| "fabs PosInf = PosInf"

text \<open>\<^verbatim>\<open>torch.clamp(x, max=m)\<close> and \<^verbatim>\<open>torch.clamp(x, min=m)\<close>: NaN stays NaN.\<close>

fun clamp_max :: "fl \<Rightarrow> real \<Rightarrow> fl" where
  "clamp_max NaN m = NaN"
| "clamp_max NegInf m = NegInf"
| "clamp_max (Finite x) m = Finite (min x m)"
| "clamp_max PosInf m = Finite m"

fun clamp_min :: "fl \<Rightarrow> real \<Rightarrow> fl" where
  "clamp_min NaN m = NaN"
| "clamp_min NegInf m = Finite m"
| "clamp_min (Finite x) m = Finite (max x m)"
| "clamp_min PosInf m = PosInf"

text \<open>The comparison \<^verbatim>\<open>a < b\<close>: false as soon as one side is NaN.\<close>

fun flt :: "fl \<Rightarrow> fl \<Rightarrow> bool" where
  "flt NaN _ = False"
| "flt _ NaN = False"
| "flt (Finite x) (Finite y) = (x < y)"
| "flt NegInf NegInf = False"
| "flt NegInf _ = True"
| "flt _ NegInf = False"
| "flt PosInf _ = False"
| "flt _ PosInf = True"

text \<open>The comparison \<^verbatim>\<open>a <= b\<close>, with the same rule for NaN.\<close>

definition fle :: "fl \<Rightarrow> fl \<Rightarrow> bool" where
  "fle a b = (a \<noteq> NaN \<and> b \<noteq> NaN \<and> \<not> flt b a)"

text \<open>\<^verbatim>\<open>x ** 2\<close> on a scalar.\<close>

definition fpow2 :: "fl \<Rightarrow> fl" where
  "fpow2 a = fmul a a"

text \<open>
  A tensor is the list of its entries in row-major order; where a shape matters it is
  carried beside the entries. \<open>fsum\<close> is \<^verbatim>\<open>torch.sum\<close>.
\<close>

type_synonym tensor = "fl list"

definition fsum :: "tensor \<Rightarrow> fl" where
  "fsum xs = foldl fadd (Finite 0) xs"

section \<open>Errors and the random source\<close>

text \<open>
  The exceptions that the modelled statements can raise. A function that can raise
  returns \<open>error + 'a\<close>, with \<open>Inl\<close> for the exception.
\<close>

datatype error = AttributeError | IndexError | RuntimeError | ZeroDivisionError

text \<open>
  The process-wide generator of torch is an explicit value: the stream of standard normal
  draws still to come, the stream of uniform draws on \<open>[0, 1)\<close> still to come, and
  the stream of raw integers that \<^verbatim>\<open>torch.randint\<close> reduces to its range. Every
  stochastic call takes the generator and returns it advanced.
\<close>

record rng =
  normals :: "real stream"
  uniforms :: "real stream"
  randints :: "nat stream"

text \<open>\<^verbatim>\<open>torch.empty(n).uniform_(lo, hi)\<close>\<close>

definition uniform_init :: "nat \<Rightarrow> real \<Rightarrow> real \<Rightarrow> rng \<Rightarrow> tensor \<times> rng" where
  "uniform_init n lo hi r =
     (map (\<lambda>u. Finite (lo + (hi - lo) * u)) (stake n (uniforms r)),
      r\<lparr>uniforms := sdrop n (uniforms r)\<rparr>)"

text \<open>\<^verbatim>\<open>torch.rand(1)\<close>\<close>

definition rand1 :: "rng \<Rightarrow> real \<times> rng" where
  "rand1 r = (shd (uniforms r), r\<lparr>uniforms := stl (uniforms r)\<rparr>)"

text \<open>\<^verbatim>\<open>torch.randn_like(theta)\<close>\<close>

definition randn_like :: "tensor \<Rightarrow> rng \<Rightarrow> real list \<times> rng" where
  "randn_like theta r =
     (stake (length theta) (normals r), r\<lparr>normals := sdrop (length theta) (normals r)\<rparr>)"

text \<open>
  \<^verbatim>\<open>torch.normal(mean=torch.zeros_like(theta), std=dt)\<close> with a scalar \<open>std\<close>:
  torch refuses a standard deviation that is not \<open>>= 0\<close> (a negative one, or NaN) with
  a RuntimeError; otherwise the draw is \<open>mean + std * z\<close> for standard normal \<open>z\<close>.
\<close>

fun std_ok :: "fl \<Rightarrow> bool" where
  "std_ok NaN = False"
| "std_ok NegInf = False"
| "std_ok (Finite s) = (0 \<le> s)"
| "std_ok PosInf = True"

definition normal_zero_mean :: "tensor \<Rightarrow> fl \<Rightarrow> rng \<Rightarrow> error + tensor \<times> rng" where
  "normal_zero_mean theta std r =
     (if std_ok std
      then (case randn_like theta r of
              (zs, r') \<Rightarrow> Inr (map (\<lambda>z. fadd (Finite 0) (fmul std (Finite z))) zs, r'))
      else Inl RuntimeError)"

text \<open>\<^verbatim>\<open>torch.randint(low, high, (1,)).item()\<close>\<close>

definition randint :: "nat \<Rightarrow> nat \<Rightarrow> rng \<Rightarrow> nat \<times> rng" where
  "randint low high r =
     (low + shd (randints r) mod (high - low), r\<lparr>randints := stl (randints r)\<rparr>)"

section \<open>Step-size controller\<close>

text \<open>
  Lines 83 and 199 of \<^verbatim>\<open>Base/mcmc.py\<close>, in both drivers:
  \<^verbatim>\<open>dt += dt * (a.item() - 0.234) / (i + 1)\<close>.
  \<open>adapt\<close> is the statement on the scalars as the program has them; \<open>adapt_real\<close> is
  its value on finite arguments.
\<close>

definition adapt :: "fl \<Rightarrow> fl \<Rightarrow> nat \<Rightarrow> fl" where
  "adapt dt a i =
     fadd dt (fdiv (fmul dt (fsub a (Finite 0.234))) (Finite (real (i + 1))))"

definition adapt_real :: "real \<Rightarrow> real \<Rightarrow> nat \<Rightarrow> real" where
  "adapt_real dt a i = dt + dt * (a - 0.234) / real (i + 1)"


section \<open>Configuration of the drivers\<close>

text \<open>
  The constructor arguments that the drivers read. The log-prior, the log-likelihoods
  and the gradient are supplied by subclasses; they are functions of the parameter
  vector. \<open>grad_log_likelihood\<close> stands for
  \<^verbatim>\<open>torch.autograd.grad(self.log_likelihood(theta), theta)[0]\<close>.
  The source compares \<^verbatim>\<open>self.proposal_type\<close> with the strings
  \<^verbatim>\<open>"random_walk"\<close> and \<^verbatim>\<open>"langevin"\<close>; the two modes are the
  constructors of \<open>proposal_type\<close>. \<open>burnin\<close> is the value the constructor has stored.
\<close>

datatype proposal_type = random_walk | langevin

record sampler =
  log_prior :: "tensor \<Rightarrow> fl"
  nparameters :: nat
  proposal_type :: proposal_type
  step_size :: real

record mh_config = sampler +
  log_likelihood :: "tensor \<Rightarrow> fl"
  grad_log_likelihood :: "tensor \<Rightarrow> tensor"
  nsamples :: nat
  burnin :: nat

record da_config = sampler +
  log_likelihood_outer :: "tensor \<Rightarrow> fl"
  log_likelihood_inner :: "tensor \<Rightarrow> fl"
  iter_mcmc :: nat
  iter_da :: nat

text \<open>
  The box prior of the subclasses in \<^verbatim>\<open>nv_mcmc.py\<close>:
  \<^verbatim>\<open>if not ((theta >= -1) & (theta <= 1)).all(): return -torch.inf else: return 0\<close>
\<close>

definition nv_log_prior :: "tensor \<Rightarrow> fl" where
  "nv_log_prior th =
     (if \<not> list_all (\<lambda>x. fle (Finite (- 1)) x \<and> fle x (Finite 1)) th then NegInf else Finite 0)"

section \<open>Proposal kernels\<close>

text \<open>
  \<^verbatim>\<open>theta + torch.normal(mean=torch.zeros_like(theta), std=dt)\<close> and
  \<^verbatim>\<open>theta + 0.5 * dt * gradient + dt * torch.randn_like(theta)\<close>.
\<close>

definition random_walk_step :: "tensor \<Rightarrow> fl \<Rightarrow> rng \<Rightarrow> error + tensor \<times> rng" where
  "random_walk_step theta dt r =
     (case normal_zero_mean theta dt r of
        Inl e \<Rightarrow> Inl e
      | Inr (noise, r') \<Rightarrow> Inr (map2 fadd theta noise, r'))"

definition langevin_step :: "tensor \<Rightarrow> fl \<Rightarrow> tensor \<Rightarrow> rng \<Rightarrow> tensor \<times> rng" where
  "langevin_step theta dt gradient r =
     (case randn_like theta r of
        (zs, r') \<Rightarrow>
          (map (\<lambda>(t, g, z). fadd (fadd t (fmul (fmul (Finite 0.5) dt) g)) (fmul dt (Finite z)))
               (zip theta (zip gradient zs)), r'))"

text \<open>\<^verbatim>\<open>MetropolisHastings.proposal\<close> (lines 41 to 49).\<close>

definition mh_proposal :: "mh_config \<Rightarrow> tensor \<Rightarrow> fl \<Rightarrow> rng \<Rightarrow> error + tensor \<times> rng" where
  "mh_proposal cfg theta dt r =
     (case proposal_type cfg of
        random_walk \<Rightarrow> random_walk_step theta dt r
      | langevin \<Rightarrow> Inr (langevin_step theta dt (grad_log_likelihood cfg theta) r))"

text \<open>
  \<^verbatim>\<open>MCMCDA.proposal\<close> (lines 154 to 162). Its langevin branch reads
  \<^verbatim>\<open>self.log_likelihood\<close>; the class \<^verbatim>\<open>MCMCDA\<close> and its subclass
  \<^verbatim>\<open>NVMCMCDA\<close> define \<^verbatim>\<open>log_likelihood_outer\<close> and
  \<^verbatim>\<open>log_likelihood_inner\<close> only, so the attribute lookup on the module raises
  AttributeError before a gradient is taken.
\<close>

definition da_proposal :: "da_config \<Rightarrow> tensor \<Rightarrow> fl \<Rightarrow> rng \<Rightarrow> error + tensor \<times> rng" where
  "da_proposal cfg theta dt r =
     (case proposal_type cfg of
        random_walk \<Rightarrow> random_walk_step theta dt r
      | langevin \<Rightarrow> Inl AttributeError)"

section \<open>Single-stage Metropolis-Hastings driver\<close>

text \<open>\<^verbatim>\<open>torch.exp(log_posterior_proposal - log_posterior).clamp(max=1.0)\<close>\<close>

definition acceptance :: "fl \<Rightarrow> fl \<Rightarrow> fl" where
  "acceptance log_posterior_proposal log_posterior =
     clamp_max (fexp (fsub log_posterior_proposal log_posterior)) 1"

record mh_state =
  mh_theta :: tensor
  mh_dt :: fl
  accepted_proposals :: nat
  samples :: "tensor list"
  mh_rng :: rng

text \<open>
  One iteration of the loop of \<^verbatim>\<open>MetropolisHastings.run_chain\<close> (lines 66 to 86).
  With \<open>verbose\<close> the progress test evaluates \<^verbatim>\<open>i % (self.nsamples // 10)\<close>,
  which raises ZeroDivisionError when \<open>nsamples < 10\<close>.
\<close>

definition mh_step :: "mh_config \<Rightarrow> bool \<Rightarrow> nat \<Rightarrow> mh_state \<Rightarrow> error + mh_state" where
  "mh_step cfg verbose i st =
     (case mh_proposal cfg (mh_theta st) (mh_dt st) (mh_rng st) of
        Inl e \<Rightarrow> Inl e
      | Inr (theta_proposal, r1) \<Rightarrow>
          (let log_posterior = fadd (log_prior cfg (mh_theta st)) (log_likelihood cfg (mh_theta st));
               log_posterior_proposal =
                 fadd (log_prior cfg theta_proposal) (log_likelihood cfg theta_proposal);
               a = acceptance log_posterior_proposal log_posterior;
               (u, r2) = rand1 r1;
               accept = flt (Finite u) a;
               theta' = (if accept then theta_proposal else mh_theta st);
               st' = \<lparr>mh_theta = theta',
                      mh_dt = adapt (mh_dt st) a i,
                      accepted_proposals =
                        (if accept then accepted_proposals st + 1 else accepted_proposals st),
                      samples = (samples st)[i := theta'],
                      mh_rng = r2\<rparr>
           in if verbose \<and> nsamples cfg div 10 = 0 then Inl ZeroDivisionError else Inr st'))"

text \<open>\<^verbatim>\<open>for i in range(self.nsamples + self.burnin)\<close>, over the list of indices.\<close>

fun mh_loop :: "mh_config \<Rightarrow> bool \<Rightarrow> nat list \<Rightarrow> mh_state \<Rightarrow> error + mh_state" where
  "mh_loop cfg verbose [] st = Inr st"
| "mh_loop cfg verbose (i # is) st =
     (case mh_step cfg verbose i st of
        Inl e \<Rightarrow> Inl e
      | Inr st' \<Rightarrow> mh_loop cfg verbose is st')"

definition mh_init :: "mh_config \<Rightarrow> rng \<Rightarrow> mh_state" where
  "mh_init cfg r =
     (case uniform_init (nparameters cfg) (- 1) 1 r of
        (theta, r') \<Rightarrow>
          \<lparr>mh_theta = theta,
           mh_dt = Finite (step_size cfg),
           accepted_proposals = 0,
           samples = replicate (nsamples cfg + burnin cfg) (replicate (nparameters cfg) (Finite 0)),
           mh_rng = r'\<rparr>)"

text \<open>
  \<^verbatim>\<open>MetropolisHastings.run_chain\<close> (lines 52 to 88): the pair of
  \<^verbatim>\<open>samples[self.burnin:, :]\<close> and \<^verbatim>\<open>accepted_proposals / self.nsamples\<close>.
\<close>

definition mh_run_chain :: "mh_config \<Rightarrow> bool \<Rightarrow> rng \<Rightarrow> error + tensor list \<times> real" where
  "mh_run_chain cfg verbose r =
     (case mh_loop cfg verbose [0 ..< nsamples cfg + burnin cfg] (mh_init cfg r) of
        Inl e \<Rightarrow> Inl e
      | Inr st \<Rightarrow>
          if nsamples cfg = 0 then Inl ZeroDivisionError
          else Inr (drop (burnin cfg) (samples st),
                    real (accepted_proposals st) / real (nsamples cfg)))"

section \<open>Multi-chain orchestrator\<close>

text \<open>
  \<^verbatim>\<open>seeds = [torch.randint(0, 100000, (1,)).item() for _ in range(nchains)]\<close>
\<close>

fun draw_seeds :: "nat \<Rightarrow> rng \<Rightarrow> nat list \<times> rng" where
  "draw_seeds 0 r = ([], r)"
| "draw_seeds (Suc n) r =
     (case randint 0 100000 r of
        (s, r') \<Rightarrow> (case draw_seeds n r' of (ss, r'') \<Rightarrow> (s # ss, r'')))"

text \<open>
  \<^verbatim>\<open>_run_chain(seed, result_queue)\<close>: the run of one process. \<open>manual_seed\<close> is
  \<^verbatim>\<open>torch.manual_seed\<close>, the generator that a seed determines.
\<close>

definition run_chain_seeded ::
  "(nat \<Rightarrow> rng) \<Rightarrow> mh_config \<Rightarrow> nat \<Rightarrow> error + tensor list \<times> real" where
  "run_chain_seeded manual_seed cfg seed = mh_run_chain cfg False (manual_seed seed)"

text \<open>
  \<^verbatim>\<open>run_chains\<close> (lines 97 to 115): for each process, in launch order, the seed it is
  started with and what its run yields. The queue holds the returned pairs, in the order
  the processes finish.
\<close>

definition run_chains ::
  "(nat \<Rightarrow> rng) \<Rightarrow> mh_config \<Rightarrow> nat \<Rightarrow> rng \<Rightarrow> (nat \<times> (error + tensor list \<times> real)) list" where
  "run_chains manual_seed cfg nchains r =
     (let seeds = fst (draw_seeds nchains r)
      in map (\<lambda>i. (seeds ! i, run_chain_seeded manual_seed cfg (seeds ! i))) [0 ..< nchains])"

section \<open>Two-stage delayed-acceptance driver\<close>

text \<open>
  The state of \<^verbatim>\<open>MCMCDA.run_chain\<close>: its local variables, the generator, and a
  trace. The trace is ghost state: it lists, in program order, each call of
  \<^verbatim>\<open>proposal\<close> with the step size passed to it, each evaluation of
  \<^verbatim>\<open>log_likelihood_outer\<close> (\<open>Coarse\<close>) and of \<^verbatim>\<open>log_likelihood_inner\<close>
  (\<open>Fine\<close>) with its argument, each divisor \<open>a\<close> of \<^verbatim>\<open>1/a\<close> in line 229,
  and each assignment to \<open>dt\<close> by the controller with the value assigned.
\<close>

datatype event = Propose fl | Coarse tensor | Fine tensor | Divide fl | Adapt fl

record da_state =
  theta :: tensor
  dt :: fl
  outer_mh :: nat
  inner_mh :: nat
  inner_accepted :: nat
  acceptance_list :: tensor
  samples_outer :: "tensor list"
  samples_inner :: "tensor list"
  da_rng :: rng
  trace :: "event list"

definition log_posterior_outer :: "da_config \<Rightarrow> tensor \<Rightarrow> fl" where
  "log_posterior_outer cfg th = fadd (log_prior cfg th) (log_likelihood_outer cfg th)"

definition log_posterior_inner :: "da_config \<Rightarrow> tensor \<Rightarrow> fl" where
  "log_posterior_inner cfg th = fadd (log_prior cfg th) (log_likelihood_inner cfg th)"

text \<open>Lines 189 and 220: the first-stage acceptance probability.\<close>

definition stage1 :: "da_config \<Rightarrow> tensor \<Rightarrow> tensor \<Rightarrow> fl" where
  "stage1 cfg th theta_proposal =
     clamp_max (fexp (fsub (log_posterior_outer cfg theta_proposal) (log_posterior_outer cfg th))) 1"

text \<open>
  Line 229:
  \<^verbatim>\<open>torch.clamp(torch.exp(log_posterior_proposal_inner - (log_posterior_inner))*(1/a), max=1.0)\<close>
\<close>

definition stage2 :: "da_config \<Rightarrow> tensor \<Rightarrow> tensor \<Rightarrow> fl \<Rightarrow> fl" where
  "stage2 cfg th theta_proposal a =
     clamp_max (fmul (fexp (fsub (log_posterior_inner cfg theta_proposal)
                                 (log_posterior_inner cfg th)))
                     (fdiv (Finite 1) a)) 1"

text \<open>
  One iteration of the first loop (lines 180 to 202). \<open>smp\<close> is the argument
  \<^verbatim>\<open>samples\<close>. With \<open>verbose\<close> the progress test evaluates
  \<^verbatim>\<open>i % (self.iter_mcmc // 10)\<close>.
\<close>

definition phase_a_step :: "da_config \<Rightarrow> bool \<Rightarrow> bool \<Rightarrow> nat \<Rightarrow> da_state \<Rightarrow> error + da_state" where
  "phase_a_step cfg smp verbose i st =
     (case da_proposal cfg (theta st) (dt st) (da_rng st) of
        Inl e \<Rightarrow> Inl e
      | Inr (theta_proposal, r1) \<Rightarrow>
          (let a = stage1 cfg (theta st) theta_proposal;
               (u, r2) = rand1 r1;
               accept = flt (Finite u) a;
               theta' = (if accept then theta_proposal else theta st);
               st' = st\<lparr>theta := theta',
                        dt := adapt (dt st) a i,
                        outer_mh := (if accept then outer_mh st + 1 else outer_mh st),
                        samples_outer :=
                          (if smp then (samples_outer st)[i := theta'] else samples_outer st),
                        da_rng := r2,
                        trace := trace st @ [Propose (dt st), Coarse (theta st),
                                             Coarse theta_proposal, Adapt (adapt (dt st) a i)]\<rparr>
           in if verbose \<and> iter_mcmc cfg div 10 = 0 then Inl ZeroDivisionError else Inr st'))"

fun phase_a_loop :: "da_config \<Rightarrow> bool \<Rightarrow> bool \<Rightarrow> nat list \<Rightarrow> da_state \<Rightarrow> error + da_state" where
  "phase_a_loop cfg smp verbose [] st = Inr st"
| "phase_a_loop cfg smp verbose (i # is) st =
     (case phase_a_step cfg smp verbose i st of
        Inl e \<Rightarrow> Inl e
      | Inr st' \<Rightarrow> phase_a_loop cfg smp verbose is st')"

text \<open>
  Lines 224 to 237, the body of \<^verbatim>\<open>if torch.rand(1) < a\<close> in the second loop.
  \<^verbatim>\<open>acceptance_list[inner_mh-1] += 1\<close> is an update at the index that
  \<open>inner_mh\<close> had before its increment; an index beyond the tensor raises IndexError.
\<close>

definition second_stage :: "da_config \<Rightarrow> tensor \<Rightarrow> fl \<Rightarrow> da_state \<Rightarrow> error + da_state" where
  "second_stage cfg theta_proposal a st =
     (let k = inner_mh st;
          st1 = st\<lparr>inner_mh := k + 1,
                   trace := trace st @ [Fine (theta st), Fine theta_proposal, Divide a]\<rparr>;
          a2 = stage2 cfg (theta st) theta_proposal a;
          (u2, r3) = rand1 (da_rng st1);
          st2 = st1\<lparr>da_rng := r3\<rparr>
      in if flt (Finite u2) a2
         then (if k < length (acceptance_list st2)
               then Inr (st2\<lparr>theta := theta_proposal,
                              inner_accepted := inner_accepted st2 + 1,
                              acceptance_list :=
                                (acceptance_list st2)
                                  [k := fadd (acceptance_list st2 ! k) (Finite 1)]\<rparr>)
               else Inl IndexError)
         else Inr st2)"

text \<open>
  One iteration of the second loop (lines 212 to 246). With \<open>verbose\<close> the progress
  test evaluates \<^verbatim>\<open>inner_mh % (self.iter_da // 10)\<close>.
\<close>

definition phase_b_step :: "da_config \<Rightarrow> bool \<Rightarrow> bool \<Rightarrow> da_state \<Rightarrow> error + da_state" where
  "phase_b_step cfg smp verbose st =
     (case da_proposal cfg (theta st) (dt st) (da_rng st) of
        Inl e \<Rightarrow> Inl e
      | Inr (theta_proposal, r1) \<Rightarrow>
          (let a = stage1 cfg (theta st) theta_proposal;
               (u, r2) = rand1 r1;
               st1 = st\<lparr>da_rng := r2,
                        trace := trace st @ [Propose (dt st), Coarse (theta st),
                                             Coarse theta_proposal]\<rparr>
           in case (if flt (Finite u) a then second_stage cfg theta_proposal a st1 else Inr st1) of
                Inl e \<Rightarrow> Inl e
              | Inr st2 \<Rightarrow>
                  (let st3 = (if smp then st2\<lparr>samples_inner := samples_inner st2 @ [theta st2]\<rparr>
                              else st2)
                   in if verbose \<and> iter_da cfg div 10 = 0 then Inl ZeroDivisionError
                      else Inr st3)))"

text \<open>
  \<^verbatim>\<open>while inner_mh < self.iter_da\<close>. Nothing bounds the number of iterations, so the
  loop takes fuel: \<open>None\<close> says that the loop is still running when the fuel is spent,
  \<open>Some (Inl e)\<close> that an iteration raised, \<open>Some (Inr st)\<close> that the loop was left in
  state \<open>st\<close>.
\<close>

fun phase_b_loop ::
  "nat \<Rightarrow> da_config \<Rightarrow> bool \<Rightarrow> bool \<Rightarrow> da_state \<Rightarrow> (error + da_state) option" where
  "phase_b_loop 0 cfg smp verbose st =
     (if inner_mh st < iter_da cfg then None else Some (Inr st))"
| "phase_b_loop (Suc fuel) cfg smp verbose st =
     (if inner_mh st < iter_da cfg
      then (case phase_b_step cfg smp verbose st of
              Inl e \<Rightarrow> Some (Inl e)
            | Inr st' \<Rightarrow> phase_b_loop fuel cfg smp verbose st')
      else Some (Inr st))"

definition da_init :: "da_config \<Rightarrow> rng \<Rightarrow> da_state" where
  "da_init cfg r =
     (case uniform_init (nparameters cfg) (- 1) 1 r of
        (th, r') \<Rightarrow>
          \<lparr>theta = th,
           dt = Finite (step_size cfg),
           outer_mh = 0,
           inner_mh = 0,
           inner_accepted = 0,
           acceptance_list = replicate (iter_da cfg) (Finite 0),
           samples_outer = replicate (iter_mcmc cfg) (replicate (nparameters cfg) (Finite 0)),
           samples_inner = [],
           da_rng = r',
           trace = []\<rparr>)"

text \<open>Phase A: lines 167 to 202, the burn-in on the coarse oracle.\<close>

definition phase_a :: "da_config \<Rightarrow> bool \<Rightarrow> bool \<Rightarrow> rng \<Rightarrow> error + da_state" where
  "phase_a cfg smp verbose r = phase_a_loop cfg smp verbose [0 ..< iter_mcmc cfg] (da_init cfg r)"

text \<open>
  Phase B: line 210, \<^verbatim>\<open>inner_accepted,inner_mh = 0,0\<close>, and the second loop.
\<close>

definition phase_b ::
  "nat \<Rightarrow> da_config \<Rightarrow> bool \<Rightarrow> bool \<Rightarrow> da_state \<Rightarrow> (error + da_state) option" where
  "phase_b fuel cfg smp verbose st =
     phase_b_loop fuel cfg smp verbose (st\<lparr>inner_accepted := 0, inner_mh := 0\<rparr>)"

text \<open>
  \<^verbatim>\<open>MCMCDA.run_chain\<close> up to its \<^verbatim>\<open>return\<close>, which reads
  \<open>acceptance_list\<close>, or \<open>samples_inner\<close> and \<open>samples_outer\<close>, from the final state.
  With \<open>verbose\<close>, line 253 divides by \<open>inner_mh\<close>.
\<close>

definition da_run_chain ::
  "nat \<Rightarrow> da_config \<Rightarrow> bool \<Rightarrow> bool \<Rightarrow> rng \<Rightarrow> (error + da_state) option" where
  "da_run_chain fuel cfg smp verbose r =
     (case phase_a cfg smp verbose r of
        Inl e \<Rightarrow> Some (Inl e)
      | Inr stA \<Rightarrow>
          (case phase_b fuel cfg smp verbose stA of
             None \<Rightarrow> None
           | Some (Inl e) \<Rightarrow> Some (Inl e)
           | Some (Inr stB) \<Rightarrow>
               if verbose \<and> inner_mh stB = 0 then Some (Inl ZeroDivisionError)
               else Some (Inr stB)))"

subsection \<open>Reading a trace\<close>

definition fine_evals :: "event list \<Rightarrow> nat" where
  "fine_evals tr = length (filter (\<lambda>e. case e of Fine _ \<Rightarrow> True | _ \<Rightarrow> False) tr)"

definition coarse_evals :: "event list \<Rightarrow> nat" where
  "coarse_evals tr = length (filter (\<lambda>e. case e of Coarse _ \<Rightarrow> True | _ \<Rightarrow> False) tr)"

definition proposals_made :: "event list \<Rightarrow> nat" where
  "proposals_made tr = length (filter (\<lambda>e. case e of Propose _ \<Rightarrow> True | _ \<Rightarrow> False) tr)"

text \<open>The events between two states of one run.\<close>

definition new_events :: "da_state \<Rightarrow> da_state \<Rightarrow> event list" where
  "new_events st st' = drop (length (trace st)) (trace st')"

text \<open>No event is an adaptation, and every proposal is made with step size \<open>d\<close>.\<close>

definition frozen_events :: "fl \<Rightarrow> event list \<Rightarrow> bool" where
  "frozen_events d evs =
     list_all (\<lambda>e. case e of Adapt _ \<Rightarrow> False | Propose d' \<Rightarrow> d' = d | _ \<Rightarrow> True) evs"

text \<open>Every divisor of line 229 is greater than zero.\<close>

definition positive_divisors :: "event list \<Rightarrow> bool" where
  "positive_divisors evs =
     list_all (\<lambda>e. case e of Divide a \<Rightarrow> flt (Finite 0) a | _ \<Rightarrow> True) evs"

section \<open>Rounding in the acceptance probabilities\<close>

text \<open>
  The drivers above compute on exact finite values. Lines 220 and 229 compute in
  floating point: the difference of the log-posteriors, the exponential, the reciprocal
  \<^verbatim>\<open>1/a\<close> and the product are each rounded. \<open>fround rnd\<close> applies a rounding \<open>rnd\<close>
  to a finite result and leaves NaN and the infinities as they are; the functions below
  are lines 216 to 220 and lines 225 to 229 with every arithmetic result rounded by \<open>rnd\<close>.
  With the identity for \<open>rnd\<close> they are \<open>stage1\<close> and \<open>stage2\<close>.
\<close>

fun fround :: "(real \<Rightarrow> real) \<Rightarrow> fl \<Rightarrow> fl" where
  "fround rnd NaN = NaN"
| "fround rnd NegInf = NegInf"
| "fround rnd (Finite x) = Finite (rnd x)"
| "fround rnd PosInf = PosInf"

definition log_posterior_outer_rounded :: "(real \<Rightarrow> real) \<Rightarrow> da_config \<Rightarrow> tensor \<Rightarrow> fl" where
  "log_posterior_outer_rounded rnd cfg th =
     fround rnd (fadd (log_prior cfg th) (log_likelihood_outer cfg th))"

definition log_posterior_inner_rounded :: "(real \<Rightarrow> real) \<Rightarrow> da_config \<Rightarrow> tensor \<Rightarrow> fl" where
  "log_posterior_inner_rounded rnd cfg th =
     fround rnd (fadd (log_prior cfg th) (log_likelihood_inner cfg th))"

definition stage1_rounded :: "(real \<Rightarrow> real) \<Rightarrow> da_config \<Rightarrow> tensor \<Rightarrow> tensor \<Rightarrow> fl" where
  "stage1_rounded rnd cfg th theta_proposal =
     clamp_max (fround rnd (fexp (fround rnd
        (fsub (log_posterior_outer_rounded rnd cfg theta_proposal)
              (log_posterior_outer_rounded rnd cfg th))))) 1"

definition stage2_rounded ::
  "(real \<Rightarrow> real) \<Rightarrow> da_config \<Rightarrow> tensor \<Rightarrow> tensor \<Rightarrow> fl \<Rightarrow> fl" where
  "stage2_rounded rnd cfg th theta_proposal a =
     clamp_max (fround rnd
        (fmul (fround rnd (fexp (fround rnd
                 (fsub (log_posterior_inner_rounded rnd cfg theta_proposal)
                       (log_posterior_inner_rounded rnd cfg th)))))
              (fround rnd (fdiv (Finite 1) a)))) 1"

text \<open>
  The rounding of binary32, the default format of the tensors: to the nearest number with
  a 24-bit significand, a tie going to the even significand. Overflow and the subnormal
  range are not modelled, and the exponential is taken as correctly rounded. An oracle
  that computes in binary64 has the same rounding with a 53-bit significand.
\<close>

definition round_even :: "real \<Rightarrow> int" where
  "round_even z =
     (let f = \<lfloor>z\<rfloor>
      in if z - of_int f < 1/2 then f
         else if 1/2 < z - of_int f then f + 1
         else if even f then f else f + 1)"

definition f32 :: "real \<Rightarrow> real" where
  "f32 y =
     (if y = 0 then 0
      else (let u = 2 powr (of_int \<lfloor>log 2 \<bar>y\<bar>\<rfloor> - 23)
            in of_int (round_even (y / u)) * u))"

section \<open>Regularized prior\<close>

text \<open>
  \<^verbatim>\<open>MoreauYosidaPrior\<close>: the smoothing scale \<open>lam\<close> and the batch shape. The
  constructor does not check \<open>lam\<close>.
\<close>

record prior =
  lam :: fl
  batch_shape :: "nat list"

text \<open>
  Line 456:
  \<^verbatim>\<open>regularization_term = -(torch.clamp(torch.abs(x) - 1, min=0) ** 2) / (2 * self.lam)\<close>,
  entry by entry.
\<close>

definition regularization_term :: "prior \<Rightarrow> tensor \<Rightarrow> tensor" where
  "regularization_term p x =
     map (\<lambda>v. fdiv (fneg (fpow2 (clamp_min (fsub (fabs v) (Finite 1)) 0)))
                    (fmul (Finite 2) (lam p))) x"

text \<open>
  Lines 457 to 459:
  \<^verbatim>\<open>log_prob = regularization_term - torch.log(2 + torch.sqrt(2 * torch.pi * self.lam))\<close>,
  returned as it is: a tensor of the shape of \<open>x\<close>.
\<close>

definition log_prob :: "prior \<Rightarrow> tensor \<Rightarrow> tensor" where
  "log_prob p x =
     map (\<lambda>r. fsub r (flog (fadd (Finite 2)
                  (fsqrt (fmul (fmul (Finite 2) (Finite pi)) (lam p))))))
         (regularization_term p x)"

text \<open>
  The log-probability as the specification words it, to compare with \<open>log_prob\<close>: the sum
  over the coordinates of the penalty minus the per-coordinate constant.
\<close>

definition log_prob_spec :: "real \<Rightarrow> real list \<Rightarrow> real" where
  "log_prob_spec l xs =
     sum_list (map (\<lambda>x. - ((max (\<bar>x\<bar> - 1) 0)\<^sup>2) / (2 * l) - ln (2 + sqrt (2 * pi * l))) xs)"






section \<open>Concrete runs\<close>

text \<open>
  A delayed-acceptance configuration with the box prior and constant likelihoods, one
  burn-in iteration and a trial target of one; a generator whose second normal draw sends
  the proposal out of the box, and whose uniform draw for that proposal is zero.
\<close>

definition ex_cfg :: da_config where
  "ex_cfg = \<lparr>log_prior = nv_log_prior, nparameters = 1, proposal_type = random_walk,
     step_size = 1, log_likelihood_outer = (\<lambda>_. Finite 0),
     log_likelihood_inner = (\<lambda>_. Finite 0), iter_mcmc = 1, iter_da = 1\<rparr>"

definition ex_rng :: rng where
  "ex_rng = \<lparr>normals = 0 ## 1 ## sconst 0, uniforms = (1/2) ## (1/2) ## 0 ## sconst (1/2),
     randints = sconst 7\<rparr>"

text \<open>The state of that run at the end of Phase A, and at the end of Phase B.\<close>

definition ex_mid :: da_state where
  "ex_mid = \<lparr>theta = [Finite 0], dt = Finite (883/500), outer_mh = 1, inner_mh = 0,
     inner_accepted = 0, acceptance_list = [Finite 0], samples_outer = [[Finite 0]],
     samples_inner = [],
     da_rng = \<lparr>normals = 1 ## sconst 0, uniforms = 0 ## sconst (1/2), randints = sconst 7\<rparr>,
     trace = [Propose (Finite 1), Coarse [Finite 0], Coarse [Finite 0],
              Adapt (Finite (883/500))]\<rparr>"

definition ex_final :: da_state where
  "ex_final = \<lparr>theta = [Finite 0], dt = Finite (883/500), outer_mh = 1, inner_mh = 1,
     inner_accepted = 1, acceptance_list = [Finite 1], samples_outer = [[Finite 0]],
     samples_inner = [],
     da_rng = \<lparr>normals = sconst 0, uniforms = sconst (1/2), randints = sconst 7\<rparr>,
     trace = [Propose (Finite 1), Coarse [Finite 0], Coarse [Finite 0],
              Adapt (Finite (883/500)),
              Propose (Finite (883/500)), Coarse [Finite 0], Coarse [Finite (883/500)],
              Propose (Finite (883/500)), Coarse [Finite 0], Coarse [Finite 0],
              Fine [Finite 0], Fine [Finite 0], Divide (Finite 1)]\<rparr>"

text \<open>A Gaussian-shaped log-likelihood, used for both oracles.\<close>

definition gauss_log_likelihood :: "tensor \<Rightarrow> fl" where
  "gauss_log_likelihood th = fneg (fsum (map fpow2 th))"

definition gauss_cfg :: da_config where
  "gauss_cfg = \<lparr>log_prior = nv_log_prior, nparameters = 1, proposal_type = random_walk,
     step_size = 1/10, log_likelihood_outer = gauss_log_likelihood,
     log_likelihood_inner = gauss_log_likelihood, iter_mcmc = 1, iter_da = 1\<rparr>"

text \<open>
  A single-stage configuration with one burn-in iteration and one sample, and a generator
  that never moves the chain and always draws one half.
\<close>

definition ex_mh :: mh_config where
  "ex_mh = \<lparr>log_prior = nv_log_prior, nparameters = 1, proposal_type = random_walk,
     step_size = 1/10, log_likelihood = (\<lambda>_. Finite 0), grad_log_likelihood = (\<lambda>th. th),
     nsamples = 1, burnin = 1\<rparr>"

definition calm_rng :: rng where
  "calm_rng = \<lparr>normals = sconst 0, uniforms = sconst (1/2), randints = sconst 7\<rparr>"

text \<open>
  Identical oracles whose log-likelihood is the sum of the parameters, with the current
  point \<open>0\<close> and the proposal \<open>-95/256\<close>; \<open>drift_a\<close> is the binary32 value of
  \<open>exp (-95/256)\<close> and \<open>drift_r\<close> that of its reciprocal.
\<close>

definition drift_cfg :: da_config where
  "drift_cfg = \<lparr>log_prior = nv_log_prior, nparameters = 1, proposal_type = random_walk,
     step_size = 1/10, log_likelihood_outer = fsum, log_likelihood_inner = fsum,
     iter_mcmc = 1, iter_da = 1\<rparr>"

definition drift_a :: real where
  "drift_a = 11575931 / 2 ^ 24"

definition drift_r :: real where
  "drift_r = 12157768 / 2 ^ 23"

text \<open>A prior with a unit scale, and one with the degenerate scale zero.\<close>

definition unit_prior :: prior where
  "unit_prior = \<lparr>lam = Finite 1, batch_shape = []\<rparr>"


section \<open>Properties of the step-size controller\<close>

lemma adapt_Finite: "adapt (Finite s) (Finite a) i = Finite (adapt_real s a i)"
  by (simp add: adapt_def adapt_real_def fsub_def)

lemma adapt_real_pos:
  assumes "0 < s" and "0 \<le> a"
  shows "0 < adapt_real s a i"
proof -
  have c: "(0.234::real) < 1" by simp
  have n: "1 \<le> real (i + 1)" by simp
  have num: "0 < real (i + 1) + a - 0.234" using c n assms(2) by linarith
  have eq: "adapt_real s a i = s * ((real (i + 1) + a - 0.234) / real (i + 1))"
    by (simp add: adapt_real_def field_simps)
  have "0 < (real (i + 1) + a - 0.234) / real (i + 1)"
    using num n by (intro divide_pos_pos) linarith+
  then show ?thesis unfolding eq using assms(1) by (rule mult_pos_pos [rotated])
qed

text \<open>
  Claim C4. For every step size \<open>s > 0\<close>, every acceptance probability \<open>a\<close> in
  \<open>[0, 1]\<close> and every iteration index \<open>i\<close>, one application of the controller yields
  the finite value \<open>s + s * (a - 0.234) / (i + 1)\<close>, and that value is strictly
  positive.
\<close>

theorem adapt_formula_positive:
  assumes "0 < s" and "0 \<le> a" and "a \<le> 1"
  shows "adapt (Finite s) (Finite a) i = Finite (s + s * (a - 0.234) / real (i + 1))
         \<and> 0 < s + s * (a - 0.234) / real (i + 1)"
  using adapt_real_pos [OF assms(1) assms(2), of i]
  by (simp add: adapt_Finite adapt_real_def)

theorem adapt_formula_positive_witness:
  "adapt (Finite (1/10)) (Finite 0) 0 = Finite (1/10 + 1/10 * (0 - 0.234) / real (0 + 1))
   \<and> (0::real) < 1/10 + 1/10 * (0 - 0.234) / real (0 + 1)"
  using adapt_formula_positive [of "1/10" 0 0] by simp

section \<open>Properties of the Phase B loop\<close>

lemmas da_defs = phase_b_def phase_b_step_def second_stage_def da_proposal_def
  random_walk_step_def normal_zero_mean_def randn_like_def rand1_def stage1_def stage2_def
  log_posterior_outer_def log_posterior_inner_def fsub_def da_init_def uniform_init_def Let_def

lemma two_Suc: "(2::nat) = Suc (Suc 0)"
  by simp

lemma upt_two: "[0..<2] = [0, Suc 0]"
  by (simp add: numeral_2_eq_2)

lemma evals_Nil [simp]: "fine_evals [] = 0" "coarse_evals [] = 0" "proposals_made [] = 0"
  by (simp_all add: fine_evals_def coarse_evals_def proposals_made_def)

lemma fine_evals_append [simp]: "fine_evals (xs @ ys) = fine_evals xs + fine_evals ys"
  by (simp add: fine_evals_def)

lemma coarse_evals_append [simp]: "coarse_evals (xs @ ys) = coarse_evals xs + coarse_evals ys"
  by (simp add: coarse_evals_def)

lemma proposals_made_append [simp]:
  "proposals_made (xs @ ys) = proposals_made xs + proposals_made ys"
  by (simp add: proposals_made_def)

lemma frozen_events_append [simp]:
  "frozen_events d (xs @ ys) = (frozen_events d xs \<and> frozen_events d ys)"
  by (simp add: frozen_events_def)

text \<open>A uniform draw, which is not negative, is never below a probability of zero.\<close>

lemma flt_zero_fails:
  assumes "0 \<le> u"
  shows "\<not> flt (Finite u) (Finite 0)"
  using assms by simp

lemma flt_nonneg:
  assumes "flt (Finite u) a" and "0 \<le> u"
  shows "flt (Finite 0) a"
  using assms by (cases a) auto

lemma random_walk_step_uniforms:
  "random_walk_step th d r = Inr (th', r') \<Longrightarrow> uniforms r' = uniforms r"
  by (auto simp: random_walk_step_def normal_zero_mean_def randn_like_def
      split: if_splits sum.splits prod.splits)

lemma da_proposal_uniforms:
  "da_proposal cfg th d r = Inr (th', r') \<Longrightarrow> uniforms r' = uniforms r"
  by (auto simp: da_proposal_def dest: random_walk_step_uniforms split: proposal_type.splits)

lemma second_stage_result:
  assumes "second_stage cfg th' a st = Inr st'"
  shows "trace st' = trace st @ [Fine (theta st), Fine th', Divide a]
         \<and> inner_mh st' = inner_mh st + 1 \<and> dt st' = dt st
         \<and> uniforms (da_rng st') = stl (uniforms (da_rng st))"
  using assms
  by (auto simp: second_stage_def rand1_def Let_def split: if_splits prod.splits)

text \<open>
  An iteration that returns either rejected the proposal at the first stage, or passed
  it with the uniform draw below \<open>a\<close> and went through the second stage.
\<close>

lemma phase_b_step_cases:
  assumes "phase_b_step cfg smp verbose st = Inr st'"
  obtains (reject) th' where
      "trace st' = trace st @ [Propose (dt st), Coarse (theta st), Coarse th']"
      "inner_mh st' = inner_mh st" "dt st' = dt st"
      "uniforms (da_rng st') = stl (uniforms (da_rng st))"
  | (trial) th' a where
      "flt (Finite (shd (uniforms (da_rng st)))) a"
      "trace st' = trace st @ [Propose (dt st), Coarse (theta st), Coarse th',
                               Fine (theta st), Fine th', Divide a]"
      "inner_mh st' = inner_mh st + 1" "dt st' = dt st"
      "uniforms (da_rng st') = stl (stl (uniforms (da_rng st)))"
proof -
  from assms obtain th' r1 where p: "da_proposal cfg (theta st) (dt st) (da_rng st) = Inr (th', r1)"
    by (auto simp: phase_b_step_def split: sum.splits)
  have u: "uniforms r1 = uniforms (da_rng st)" using da_proposal_uniforms [OF p] .
  define a where "a = stage1 cfg (theta st) th'"
  define st1 where "st1 = st\<lparr>da_rng := snd (rand1 r1),
      trace := trace st @ [Propose (dt st), Coarse (theta st), Coarse th']\<rparr>"
  show thesis
  proof (cases "flt (Finite (shd (uniforms (da_rng st)))) a")
    case False
    with assms p u
    have "st' = (if smp then st1\<lparr>samples_inner := samples_inner st1 @ [theta st1]\<rparr> else st1)"
      by (auto simp: phase_b_step_def rand1_def Let_def a_def st1_def split: if_splits)
    then show thesis
      by (intro reject [of th']) (auto simp: st1_def rand1_def u)
  next
    case True
    with assms p u obtain st2 where s2: "second_stage cfg th' a st1 = Inr st2"
      and st': "st' = (if smp then st2\<lparr>samples_inner := samples_inner st2 @ [theta st2]\<rparr> else st2)"
      by (auto simp: phase_b_step_def rand1_def Let_def a_def st1_def split: if_splits sum.splits)
    from second_stage_result [OF s2] st' show thesis
      by (intro trial [of a th']) (auto simp: True st1_def rand1_def u)
  qed
qed

lemma phase_b_loop_counts:
  assumes "phase_b_loop fuel cfg smp verbose st = Some (Inr st')"
      and "inner_mh st \<le> iter_da cfg"
  shows "inner_mh st' = iter_da cfg \<and>
         (\<exists>evs. trace st' = trace st @ evs
            \<and> fine_evals evs = 2 * (iter_da cfg - inner_mh st)
            \<and> coarse_evals evs = 2 * proposals_made evs
            \<and> iter_da cfg - inner_mh st \<le> proposals_made evs)"
  using assms
proof (induction fuel arbitrary: st)
  case 0
  then show ?case by (auto split: if_splits)
next
  case (Suc fuel)
  show ?case
  proof (cases "inner_mh st < iter_da cfg")
    case False
    with Suc.prems show ?thesis by auto
  next
    case True
    with Suc.prems(1) obtain st1 where
      step: "phase_b_step cfg smp verbose st = Inr st1" and
      rest: "phase_b_loop fuel cfg smp verbose st1 = Some (Inr st')"
      by (auto split: sum.splits)
    from step show ?thesis
    proof (cases rule: phase_b_step_cases)
      case (reject th')
      then have le: "inner_mh st1 \<le> iter_da cfg" using True by simp
      from Suc.IH [OF rest le] reject show ?thesis
        by (auto simp: fine_evals_def coarse_evals_def proposals_made_def)
    next
      case (trial th' a)
      then have le: "inner_mh st1 \<le> iter_da cfg" using True by simp
      from Suc.IH [OF rest le] obtain evs where
        e: "inner_mh st' = iter_da cfg" "trace st' = trace st1 @ evs"
           "fine_evals evs = 2 * (iter_da cfg - inner_mh st1)"
           "coarse_evals evs = 2 * proposals_made evs"
           "iter_da cfg - inner_mh st1 \<le> proposals_made evs"
        by blast
      let ?evs = "[Propose (dt st), Coarse (theta st), Coarse th',
                   Fine (theta st), Fine th', Divide a] @ evs"
      have "trace st' = trace st @ ?evs" using e(2) trial(2) by simp
      moreover have "fine_evals ?evs = 2 * (iter_da cfg - inner_mh st)"
        using e(3) trial(3) True by (simp add: fine_evals_def)
      moreover have "coarse_evals ?evs = 2 * proposals_made ?evs"
        using e(4) by (simp add: coarse_evals_def proposals_made_def)
      moreover have "iter_da cfg - inner_mh st \<le> proposals_made ?evs"
        using e(5) trial(3) by (simp add: proposals_made_def)
      ultimately show ?thesis using e(1) by blast
    qed
  qed
qed

lemma phase_b_loop_frozen:
  assumes "phase_b_loop fuel cfg smp verbose st = Some (Inr st')"
  shows "dt st' = dt st \<and> (\<exists>evs. trace st' = trace st @ evs \<and> frozen_events (dt st) evs)"
  using assms
proof (induction fuel arbitrary: st)
  case 0
  then show ?case by (auto simp: frozen_events_def split: if_splits)
next
  case (Suc fuel)
  show ?case
  proof (cases "inner_mh st < iter_da cfg")
    case False
    with Suc.prems show ?thesis by (auto simp: frozen_events_def)
  next
    case True
    with Suc.prems(1) obtain st1 where
      step: "phase_b_step cfg smp verbose st = Inr st1" and
      rest: "phase_b_loop fuel cfg smp verbose st1 = Some (Inr st')"
      by (auto split: sum.splits)
    from Suc.IH [OF rest] obtain evs where
      e: "dt st' = dt st1" "trace st' = trace st1 @ evs" "frozen_events (dt st1) evs"
      by blast
    from step show ?thesis
    proof (cases rule: phase_b_step_cases)
      case (reject th')
      with e have "trace st' = trace st @ ([Propose (dt st), Coarse (theta st), Coarse th'] @ evs)"
        and "frozen_events (dt st) ([Propose (dt st), Coarse (theta st), Coarse th'] @ evs)"
        by (simp_all add: frozen_events_def)
      with e(1) reject(3) show ?thesis by metis
    next
      case (trial th' a)
      let ?evs = "[Propose (dt st), Coarse (theta st), Coarse th',
                   Fine (theta st), Fine th', Divide a] @ evs"
      from trial e have "trace st' = trace st @ ?evs" and "frozen_events (dt st) ?evs"
        by (simp_all add: frozen_events_def)
      with e(1) trial(4) show ?thesis by metis
    qed
  qed
qed

lemma phase_b_loop_divisors:
  assumes "phase_b_loop fuel cfg smp verbose st = Some (Inr st')"
      and "\<forall>u \<in> sset (uniforms (da_rng st)). 0 \<le> u"
  shows "\<exists>evs. trace st' = trace st @ evs \<and> positive_divisors evs"
  using assms
proof (induction fuel arbitrary: st)
  case 0
  then show ?case by (auto simp: positive_divisors_def split: if_splits)
next
  case (Suc fuel)
  show ?case
  proof (cases "inner_mh st < iter_da cfg")
    case False
    with Suc.prems show ?thesis by (auto simp: positive_divisors_def)
  next
    case True
    with Suc.prems(1) obtain st1 where
      step: "phase_b_step cfg smp verbose st = Inr st1" and
      rest: "phase_b_loop fuel cfg smp verbose st1 = Some (Inr st')"
      by (auto split: sum.splits)
    have hd0: "0 \<le> shd (uniforms (da_rng st))"
      using Suc.prems(2) by (simp add: shd_sset)
    from step show ?thesis
    proof (cases rule: phase_b_step_cases)
      case (reject th')
      have "\<forall>u \<in> sset (uniforms (da_rng st1)). 0 \<le> u"
        using Suc.prems(2) reject(4) by (auto dest: stl_sset)
      from Suc.IH [OF rest this] obtain evs where
        e: "trace st' = trace st1 @ evs" "positive_divisors evs" by blast
      with reject have "trace st' = trace st @ ([Propose (dt st), Coarse (theta st), Coarse th'] @ evs)"
        and "positive_divisors ([Propose (dt st), Coarse (theta st), Coarse th'] @ evs)"
        by (simp_all add: positive_divisors_def)
      then show ?thesis by metis
    next
      case (trial th' a)
      have "\<forall>u \<in> sset (uniforms (da_rng st1)). 0 \<le> u"
        using Suc.prems(2) trial(5) by (auto dest: stl_sset)
      from Suc.IH [OF rest this] obtain evs where
        e: "trace st' = trace st1 @ evs" "positive_divisors evs" by blast
      let ?evs = "[Propose (dt st), Coarse (theta st), Coarse th',
                   Fine (theta st), Fine th', Divide a] @ evs"
      have "flt (Finite 0) a" using flt_nonneg [OF trial(1) hd0] .
      with trial e have "trace st' = trace st @ ?evs" and "positive_divisors ?evs"
        by (simp_all add: positive_divisors_def)
      then show ?thesis by metis
    qed
  qed
qed

subsection \<open>Fuel and the whole driver\<close>

text \<open>A result of the loop does not depend on the fuel that is left over.\<close>

lemma phase_b_loop_more_fuel:
  assumes "phase_b_loop fuel cfg smp verbose st = Some res"
  shows "phase_b_loop (fuel + k) cfg smp verbose st = Some res"
  using assms
proof (induction fuel arbitrary: st)
  case 0
  then show ?case by (cases k) (auto split: if_splits)
next
  case (Suc fuel)
  show ?case
  proof (cases "inner_mh st < iter_da cfg")
    case False
    with Suc.prems show ?thesis by simp
  next
    case True
    show ?thesis
    proof (cases "phase_b_step cfg smp verbose st")
      case (Inl e)
      with True Suc.prems have "res = Inl e" by simp
      with True Inl show ?thesis by simp
    next
      case (Inr st1)
      with True Suc.prems have "phase_b_loop fuel cfg smp verbose st1 = Some res" by simp
      from Suc.IH [OF this] True Inr show ?thesis by simp
    qed
  qed
qed

text \<open>With a trial target of zero Phase B returns at once.\<close>

lemma phase_b_zero_target:
  assumes "iter_da cfg = 0"
  shows "phase_b fuel cfg smp verbose st = Some (Inr (st\<lparr>inner_accepted := 0, inner_mh := 0\<rparr>))"
  using assms by (cases fuel) (simp_all add: phase_b_def)

text \<open>A run of the driver that returns is a Phase A followed by a Phase B that returns.\<close>

lemma da_run_chain_phases:
  assumes "da_run_chain fuel cfg smp verbose r = Some (Inr stB)"
  shows "\<exists>stA. phase_a cfg smp verbose r = Inr stA
             \<and> phase_b fuel cfg smp verbose stA = Some (Inr stB)"
  using assms
  by (auto simp: da_run_chain_def split: sum.splits option.splits if_splits)

subsection \<open>The loop need not return\<close>

lemma fadd_NaN_right: "fadd x NaN = NaN"
  by (cases x) simp_all

lemma stage1_NaN:
  assumes "log_likelihood_outer cfg = (\<lambda>_. NaN)"
  shows "stage1 cfg x y = NaN"
  using assms by (simp add: stage1_def log_posterior_outer_def fsub_def fadd_NaN_right)

lemma phase_b_step_NaN:
  assumes "log_likelihood_outer cfg = (\<lambda>_. NaN)" and "proposal_type cfg = random_walk"
      and "std_ok (dt st)"
  shows "\<exists>st1. phase_b_step cfg smp False st = Inr st1
               \<and> inner_mh st1 = inner_mh st \<and> dt st1 = dt st"
proof -
  let ?th = "map2 fadd (theta st)
      (map (\<lambda>z. fadd (Finite 0) (fmul (dt st) (Finite z)))
         (stake (length (theta st)) (normals (da_rng st))))"
  let ?r = "(da_rng st)\<lparr>normals := sdrop (length (theta st)) (normals (da_rng st))\<rparr>"
  have p: "da_proposal cfg (theta st) (dt st) (da_rng st) = Inr (?th, ?r)"
    using assms(2,3)
    by (simp add: da_proposal_def random_walk_step_def normal_zero_mean_def randn_like_def)
  show ?thesis
    by (simp add: phase_b_step_def p stage1_NaN [OF assms(1)] rand1_def Let_def)
qed

text \<open>
  With a coarse oracle that yields NaN no proposal passes the first stage: whatever the
  fuel and the random draws, the loop is still running when the fuel is spent.
\<close>

lemma phase_b_loop_never_returns:
  assumes "log_likelihood_outer cfg = (\<lambda>_. NaN)" and "proposal_type cfg = random_walk"
      and "std_ok (dt st)" and "inner_mh st < iter_da cfg"
  shows "phase_b_loop fuel cfg smp False st = None"
  using assms(3,4)
proof (induction fuel arbitrary: st)
  case 0
  then show ?case by simp
next
  case (Suc fuel)
  from phase_b_step_NaN [OF assms(1,2) Suc.prems(1)] obtain st1 where
    s: "phase_b_step cfg smp False st = Inr st1"
    and k: "inner_mh st1 = inner_mh st" "dt st1 = dt st"
    by blast
  from Suc.IH [of st1] k Suc.prems have "phase_b_loop fuel cfg smp False st1 = None" by simp
  with s Suc.prems(2) show ?case by simp
qed

subsection \<open>The concrete run\<close>

lemma ex_phase_a: "phase_a ex_cfg False False ex_rng = Inr ex_mid"
  by (simp add: phase_a_def phase_a_step_def da_defs ex_cfg_def ex_rng_def ex_mid_def adapt_def
      nv_log_prior_def fle_def)

lemma ex_phase_b: "phase_b 2 ex_cfg False False ex_mid = Some (Inr ex_final)"
  by (simp add: two_Suc da_defs ex_cfg_def ex_mid_def ex_final_def nv_log_prior_def fle_def)

lemma ex_run_chain: "da_run_chain 2 ex_cfg False False ex_rng = Some (Inr ex_final)"
  by (simp add: da_run_chain_def ex_phase_a ex_phase_b)

lemma ex_new_events:
  "new_events ex_mid ex_final =
     [Propose (Finite (883/500)), Coarse [Finite 0], Coarse [Finite (883/500)],
      Propose (Finite (883/500)), Coarse [Finite 0], Coarse [Finite 0],
      Fine [Finite 0], Fine [Finite 0], Divide (Finite 1)]"
  by (simp add: new_events_def ex_mid_def ex_final_def)

section \<open>Delayed-acceptance refinement phase\<close>

text \<open>
  Claim C1, as the program has it. Whenever Phase B with trial target \<open>iter_da\<close> returns,
  its trial counter equals \<open>iter_da\<close>; the fine oracle has been evaluated exactly
  \<open>2 * iter_da\<close> times in Phase B, once at the current point and once at the proposal in
  each trial; the coarse oracle has been evaluated twice for every proposal made, and at
  least \<open>iter_da\<close> proposals have been made.
\<close>

theorem phase_b_trial_counts:
  assumes "phase_b fuel cfg smp verbose st = Some (Inr st')"
  shows "inner_mh st' = iter_da cfg
       \<and> fine_evals (new_events st st') = 2 * iter_da cfg
       \<and> coarse_evals (new_events st st') = 2 * proposals_made (new_events st st')
       \<and> iter_da cfg \<le> proposals_made (new_events st st')"
proof -
  let ?s = "st\<lparr>inner_accepted := 0, inner_mh := 0\<rparr>"
  from assms have l: "phase_b_loop fuel cfg smp verbose ?s = Some (Inr st')"
    by (simp add: phase_b_def)
  have "inner_mh ?s \<le> iter_da cfg" by simp
  from phase_b_loop_counts [OF l this] obtain evs where
    e: "inner_mh st' = iter_da cfg" "trace st' = trace ?s @ evs"
       "fine_evals evs = 2 * (iter_da cfg - inner_mh ?s)"
       "coarse_evals evs = 2 * proposals_made evs"
       "iter_da cfg - inner_mh ?s \<le> proposals_made evs"
    by blast
  from e(2) have "new_events st st' = evs" by (simp add: new_events_def)
  with e show ?thesis by simp
qed

theorem phase_b_trial_counts_witness:
  "phase_b 2 ex_cfg False False ex_mid = Some (Inr ex_final)
   \<and> inner_mh ex_final = iter_da ex_cfg
   \<and> fine_evals (new_events ex_mid ex_final) = 2 * iter_da ex_cfg
   \<and> coarse_evals (new_events ex_mid ex_final) = 4
   \<and> proposals_made (new_events ex_mid ex_final) = 2"
  using phase_b_trial_counts [OF ex_phase_b] ex_phase_b
  by (simp add: ex_new_events coarse_evals_def proposals_made_def)

text \<open>
  The run above has trial target one and evaluates the fine oracle twice in Phase B.
\<close>

theorem phase_b_fine_evals_counterexample:
  "phase_b 2 ex_cfg False False ex_mid = Some (Inr ex_final)
   \<and> iter_da ex_cfg = 1
   \<and> fine_evals (new_events ex_mid ex_final) = 2"
  using ex_phase_b by (simp add: ex_new_events fine_evals_def ex_cfg_def)

text \<open>
  Claim C3. In every run of Phase B that returns, with uniform draws in \<open>[0, 1)\<close>, each
  divisor \<open>a\<close> of the second-stage correction \<open>1/a\<close> is greater than zero: the
  correction is evaluated only after the uniform draw, which is not negative, was found
  below \<open>a\<close>.
\<close>

theorem stage2_divisor_positive:
  assumes "phase_b fuel cfg smp verbose st = Some (Inr st')"
      and "\<forall>u \<in> sset (uniforms (da_rng st)). 0 \<le> u \<and> u < 1"
  shows "positive_divisors (new_events st st')"
proof -
  let ?s = "st\<lparr>inner_accepted := 0, inner_mh := 0\<rparr>"
  from assms(1) have l: "phase_b_loop fuel cfg smp verbose ?s = Some (Inr st')"
    by (simp add: phase_b_def)
  have "\<forall>u \<in> sset (uniforms (da_rng ?s)). 0 \<le> u" using assms(2) by simp
  from phase_b_loop_divisors [OF l this] obtain evs where
    e: "trace st' = trace ?s @ evs" "positive_divisors evs" by blast
  from e(1) have "new_events st st' = evs" by (simp add: new_events_def)
  with e(2) show ?thesis by simp
qed

theorem stage2_divisor_positive_witness:
  "phase_b 2 ex_cfg False False ex_mid = Some (Inr ex_final)
   \<and> sset (uniforms (da_rng ex_mid)) = {0, 1/2}
   \<and> positive_divisors (new_events ex_mid ex_final)"
proof -
  have u: "sset (uniforms (da_rng ex_mid)) = {0, 1/2}" by (simp add: ex_mid_def)
  then have "\<forall>u \<in> sset (uniforms (da_rng ex_mid)). 0 \<le> u \<and> u < 1" by simp
  from stage2_divisor_positive [OF ex_phase_b this] ex_phase_b u show ?thesis by simp
qed

text \<open>
  Claim C5. Let Phase A end in state \<open>stA\<close> and Phase B, started there, return in state
  \<open>stB\<close>. Then the step size of \<open>stB\<close> is that of \<open>stA\<close>, every proposal of Phase B was
  made with the step size of \<open>stA\<close>, and the controller was not applied in Phase B.
\<close>

theorem phase_b_step_size_frozen:
  assumes "phase_a cfg smp verbose r = Inr stA"
      and "phase_b fuel cfg smp verbose stA = Some (Inr stB)"
  shows "dt stB = dt stA \<and> frozen_events (dt stA) (new_events stA stB)"
proof -
  let ?s = "stA\<lparr>inner_accepted := 0, inner_mh := 0\<rparr>"
  from assms(2) have l: "phase_b_loop fuel cfg smp verbose ?s = Some (Inr stB)"
    by (simp add: phase_b_def)
  from phase_b_loop_frozen [OF l] obtain evs where
    e: "dt stB = dt ?s" "trace stB = trace ?s @ evs" "frozen_events (dt ?s) evs" by blast
  from e(2) have "new_events stA stB = evs" by (simp add: new_events_def)
  with e show ?thesis by simp
qed

theorem phase_b_step_size_frozen_witness:
  "phase_a ex_cfg False False ex_rng = Inr ex_mid
   \<and> phase_b 2 ex_cfg False False ex_mid = Some (Inr ex_final)
   \<and> dt ex_mid = Finite (883/500)
   \<and> dt ex_final = dt ex_mid
   \<and> frozen_events (dt ex_mid) (new_events ex_mid ex_final)"
  using phase_b_step_size_frozen [OF ex_phase_a ex_phase_b] ex_phase_a ex_phase_b
  by (simp add: ex_mid_def)

subsection \<open>Identical oracles\<close>

lemma ratio_clamped:
  fixes e :: real
  assumes "0 < e"
  shows "min (e * (1 / min e 1)) 1 = 1"
proof (cases "e \<le> 1")
  case True
  then have "min e 1 = e" by simp
  with assms show ?thesis by simp
next
  case False
  then have "min e 1 = 1" and "1 < e" by simp_all
  then show ?thesis by simp
qed

lemma gauss_posteriors:
  "log_posterior_outer gauss_cfg [Finite 0] = Finite 0"
  "log_posterior_outer gauss_cfg [Finite 1] = Finite (- 1)"
  by (simp_all add: log_posterior_outer_def gauss_cfg_def gauss_log_likelihood_def
      nv_log_prior_def fle_def fsum_def fpow2_def)

text \<open>
  In exact arithmetic, identical oracles with finite log-posteriors give a second-stage
  probability of exactly \<open>1\<close>.
\<close>

lemma stage2_exact_arithmetic:
  assumes "log_likelihood_inner cfg = log_likelihood_outer cfg"
      and "log_posterior_outer cfg th = Finite l"
      and "log_posterior_outer cfg th' = Finite l'"
  shows "stage2 cfg th th' (stage1 cfg th th') = Finite 1"
proof -
  have inner: "log_posterior_inner cfg = log_posterior_outer cfg"
    using assms(1) by (simp add: log_posterior_inner_def log_posterior_outer_def fun_eq_iff)
  have a1: "stage1 cfg th th' = Finite (min (exp (l' - l)) 1)"
    using assms(2,3) by (simp add: stage1_def fsub_def)
  have "0 < min (exp (l' - l)) 1" by simp
  then have pos: "min (exp (l' - l)) 1 \<noteq> 0" by linarith
  show ?thesis
    using assms(2,3) pos ratio_clamped [of "exp (l' - l)"]
    by (simp add: stage2_def inner a1 fsub_def)
qed

lemma stage2_exact_arithmetic_gauss:
  "log_likelihood_inner gauss_cfg = log_likelihood_outer gauss_cfg
   \<and> log_posterior_outer gauss_cfg [Finite 0] = Finite 0
   \<and> log_posterior_outer gauss_cfg [Finite 1] = Finite (- 1)
   \<and> stage1 gauss_cfg [Finite 0] [Finite 1] = Finite (exp (- 1))
   \<and> stage2 gauss_cfg [Finite 0] [Finite 1] (stage1 gauss_cfg [Finite 0] [Finite 1]) = Finite 1"
proof -
  have i: "log_likelihood_inner gauss_cfg = log_likelihood_outer gauss_cfg"
    by (simp add: gauss_cfg_def)
  have s: "stage1 gauss_cfg [Finite 0] [Finite 1] = Finite (exp (- 1))"
    by (simp add: stage1_def gauss_posteriors fsub_def)
  from stage2_exact_arithmetic [OF i gauss_posteriors] i s gauss_posteriors
  show ?thesis by simp
qed

subsection \<open>Identical oracles, with rounding\<close>

lemma fround_id [simp]: "fround (\<lambda>x. x) a = a"
  by (cases a) simp_all

lemma stage1_rounded_id: "stage1_rounded (\<lambda>x. x) cfg th th' = stage1 cfg th th'"
  by (simp add: stage1_rounded_def stage1_def log_posterior_outer_rounded_def
      log_posterior_outer_def)

lemma stage2_rounded_id: "stage2_rounded (\<lambda>x. x) cfg th th' a = stage2 cfg th th' a"
  by (simp add: stage2_rounded_def stage2_def log_posterior_inner_rounded_def
      log_posterior_inner_def)

lemma rounding_lower:
  fixes rnd :: "real \<Rightarrow> real"
  assumes "\<And>y. \<bar>rnd y - y\<bar> \<le> \<delta> * \<bar>y\<bar>" and "0 \<le> y"
  shows "(1 - \<delta>) * y \<le> rnd y"
proof -
  have "\<bar>y\<bar> = y" using assms(2) by simp
  with assms(1) [of y] have "\<bar>rnd y - y\<bar> \<le> \<delta> * y" by metis
  then have "y - \<delta> * y \<le> rnd y" by linarith
  then show ?thesis by (simp add: algebra_simps)
qed

lemma round_even_error: "\<bar>of_int (round_even z) - z\<bar> \<le> 1/2"
proof -
  have "of_int \<lfloor>z\<rfloor> \<le> z" "z < of_int \<lfloor>z\<rfloor> + 1" by linarith+
  then show ?thesis by (auto simp: round_even_def Let_def)
qed

lemma round_even_eqI:
  assumes "of_int m - 1/2 < z" and "z < of_int m + 1/2"
  shows "round_even z = m"
proof -
  have e: "\<bar>of_int (round_even z) - z\<bar> \<le> 1/2" by (rule round_even_error)
  have "\<bar>of_int (round_even z) - (of_int m :: real)\<bar> < 1" using e assms by linarith
  then have "\<bar>round_even z - m\<bar> < 1"
    by (metis of_int_abs of_int_diff of_int_less_1_iff)
  then show ?thesis by linarith
qed

lemma round_even_of_int [simp]: "round_even (of_int m) = m"
  by (rule round_even_eqI) simp_all

lemma f32_error: "\<bar>f32 y - y\<bar> \<le> \<bar>y\<bar> / 2 ^ 24"
proof (cases "y = 0")
  case True
  then show ?thesis by (simp add: f32_def)
next
  case False
  define e where "e = \<lfloor>log 2 \<bar>y\<bar>\<rfloor>"
  define u :: real where "u = 2 powr (of_int e - 23)"
  have upos: "0 < u" by (simp add: u_def)
  have f: "f32 y = of_int (round_even (y / u)) * u"
    using False by (simp add: f32_def Let_def u_def e_def)
  have "of_int e \<le> log 2 \<bar>y\<bar>" by (simp add: e_def)
  then have "2 powr (of_int e) \<le> 2 powr (log 2 \<bar>y\<bar>)" by simp
  then have le: "2 powr (of_int e) \<le> \<bar>y\<bar>" using False by simp
  have "f32 y - y = (of_int (round_even (y / u)) - y / u) * u"
    using upos by (simp add: f left_diff_distrib)
  then have "\<bar>f32 y - y\<bar> = \<bar>of_int (round_even (y / u)) - y / u\<bar> * u"
    using upos by (simp add: abs_mult)
  also have "\<dots> \<le> 1/2 * u"
    using round_even_error [of "y / u"] upos by (intro mult_right_mono) simp_all
  also have "\<dots> = 2 powr (of_int e) / 2 ^ 24"
    by (simp add: u_def powr_diff)
  also have "\<dots> \<le> \<bar>y\<bar> / 2 ^ 24" using le by (simp add: divide_right_mono)
  finally show ?thesis .
qed

lemma f32_binade:
  assumes "1 / 2 ^ n \<le> \<bar>y\<bar>" and "\<bar>y\<bar> < 2 / 2 ^ n"
  shows "f32 y = of_int (round_even (y * 2 ^ (n + 23))) / 2 ^ (n + 23)"
proof -
  have p: "(2::real) powr (- real n) = 1 / 2 ^ n"
    by (simp add: powr_minus powr_realpow divide_inverse)
  have ypos: "0 < \<bar>y\<bar>" using assms(1)
    by (metis less_le_trans zero_less_divide_1_iff zero_less_numeral zero_less_power)
  then have y0: "y \<noteq> 0" by simp
  have "(2::real) powr (- real n) \<le> \<bar>y\<bar>" using assms(1) p by simp
  then have lo: "- real n \<le> log 2 \<bar>y\<bar>" using ypos by (simp add: le_log_iff)
  have "(2::real) powr (- real n + 1) = 2 powr (- real n) * 2 powr 1"
    by (rule powr_add)
  also have "\<dots> = 2 / 2 ^ n" unfolding p by simp
  finally have "(2::real) powr (- real n + 1) = 2 / 2 ^ n" .
  then have "\<bar>y\<bar> < 2 powr (- real n + 1)" using assms(2) by simp
  then have hi: "log 2 \<bar>y\<bar> < - real n + 1" using ypos by (simp add: log_less_iff)
  have fl: "\<lfloor>log 2 \<bar>y\<bar>\<rfloor> = - int n"
    using lo hi by (simp add: floor_eq_iff)
  have u: "(2::real) powr (- real n - 23) = 1 / 2 ^ (n + 23)"
  proof -
    have "- real n - 23 = - real (n + 23)" by simp
    then have "(2::real) powr (- real n - 23) = 2 powr (- real (n + 23))" by simp
    also have "\<dots> = 1 / 2 ^ (n + 23)"
      by (simp only: powr_minus powr_realpow zero_less_numeral divide_inverse mult_1)
    finally show ?thesis .
  qed
  show ?thesis using y0 by (simp add: f32_def Let_def fl u)
qed

lemma f32_drift: "f32 (- (95/256)) = - (95/256)"
proof -
  have "f32 (- (95/256)) = of_int (round_even (- (95/256) * 2 ^ (2 + 23))) / 2 ^ (2 + 23)"
    by (rule f32_binade) simp_all
  also have "- (95/256) * 2 ^ (2 + 23) = (of_int (- 12451840) :: real)" by simp
  also have "of_int (round_even (of_int (- 12451840))) / 2 ^ (2 + 23) = (- (95/256) :: real)"
    by (simp only: round_even_of_int) simp
  finally show ?thesis .
qed

lemma exp_drift_bounds:
  "11575931 - 1/2 < exp (- (95/256)) * (2::real) ^ 24"
  "exp (- (95/256)) * (2::real) ^ 24 < 11575931 + 1/2"
proof -
  obtain t :: real where t: "\<bar>t\<bar> \<le> \<bar>- (95/256)\<bar>"
    and e: "exp (- (95/256)) =
              (\<Sum>m<10. (- (95/256)) ^ m / fact m) + (exp t / fact 10) * (- (95/256)) ^ 10"
    using Maclaurin_exp_le [of "- (95/256)" 10] by blast
  have "t \<le> 1" using t by simp
  then have "exp t \<le> exp 1" by simp
  then have hi: "exp t \<le> 3" using exp_le by linarith
  have lo: "0 < exp t" by simp
  define c :: real where "c = (- (95/256)) ^ 10 / fact 10"
  have cpos: "0 < c" by (simp add: c_def)
  have rem: "(exp t / fact 10) * (- (95/256)) ^ 10 = exp t * c" by (simp add: c_def)
  have r1: "0 < exp t * c" using lo cpos by simp
  have r2: "exp t * c \<le> 3 * c" using hi cpos by simp
  define P :: real where "P = (\<Sum>m<10. (- (95/256)) ^ m / fact m)"
  have P: "P = 1 - 95/256 + (95/256)^2/2 - (95/256)^3/6 + (95/256)^4/24 - (95/256)^5/120
             + (95/256)^6/720 - (95/256)^7/5040 + (95/256)^8/40320 - (95/256)^9/362880"
    by (simp add: P_def eval_nat_numeral lessThan_Suc fact_numeral)
  have cv: "c = (95/256)^10 / 3628800" by (simp add: c_def fact_numeral)
  have ex: "exp (- (95/256)) = P + exp t * c" using e rem by (simp add: P_def)
  have "11575931 - 1/2 < P * 2 ^ 24" unfolding P by (simp add: power_divide)
  moreover have "(P + 3 * c) * 2 ^ 24 < 11575931 + 1/2" unfolding P cv
    by (simp add: power_divide)
  ultimately show "11575931 - 1/2 < exp (- (95/256)) * (2::real) ^ 24"
    "exp (- (95/256)) * (2::real) ^ 24 < 11575931 + 1/2"
    using r1 r2 unfolding ex by (simp_all add: algebra_simps)
qed

lemma f32_zero [simp]: "f32 0 = 0"
  by (simp add: f32_def)

lemma f32_exp_drift: "f32 (exp (- (95/256))) = drift_a"
proof -
  let ?y = "exp (- (95/256)) :: real"
  have lo: "1 / 2 ^ 1 \<le> \<bar>?y\<bar>" using exp_drift_bounds(1) by simp
  have hi: "\<bar>?y\<bar> < 2 / 2 ^ 1" by simp
  have "round_even (?y * 2 ^ (1 + 23)) = 11575931"
    using exp_drift_bounds by (intro round_even_eqI) simp_all
  then show ?thesis using f32_binade [OF lo hi] by (simp add: drift_a_def)
qed

lemma f32_recip_drift: "f32 (1 / drift_a) = drift_r"
proof -
  have lo: "1 / 2 ^ 0 \<le> \<bar>1 / drift_a\<bar>" by (simp add: drift_a_def)
  have hi: "\<bar>1 / drift_a\<bar> < 2 / 2 ^ 0" by (simp add: drift_a_def)
  have "round_even (1 / drift_a * 2 ^ (0 + 23)) = 12157768"
    by (intro round_even_eqI) (simp_all add: drift_a_def)
  then show ?thesis using f32_binade [OF lo hi] by (simp add: drift_r_def)
qed

lemma f32_product_drift: "f32 (drift_a * drift_r) = 16777215 / 16777216"
proof -
  have lo: "1 / 2 ^ 1 \<le> \<bar>drift_a * drift_r\<bar>" by (simp add: drift_a_def drift_r_def)
  have hi: "\<bar>drift_a * drift_r\<bar> < 2 / 2 ^ 1" by (simp add: drift_a_def drift_r_def)
  have "round_even (drift_a * drift_r * 2 ^ (1 + 23)) = 16777215"
    by (intro round_even_eqI) (simp_all add: drift_a_def drift_r_def)
  then show ?thesis using f32_binade [OF lo hi] by simp
qed

lemma drift_posteriors:
  "log_posterior_outer_rounded f32 drift_cfg [Finite 0] = Finite 0"
  "log_posterior_outer_rounded f32 drift_cfg [Finite (- (95/256))] = Finite (- (95/256))"
  by (simp_all add: log_posterior_outer_rounded_def drift_cfg_def nv_log_prior_def fle_def
      fsum_def f32_drift)

lemma drift_posteriors_inner:
  "log_posterior_inner_rounded f32 drift_cfg [Finite 0] = Finite 0"
  "log_posterior_inner_rounded f32 drift_cfg [Finite (- (95/256))] = Finite (- (95/256))"
  by (simp_all add: log_posterior_inner_rounded_def drift_cfg_def nv_log_prior_def fle_def
      fsum_def f32_drift)

lemma drift_a_range: "0 < drift_a" "drift_a < 1"
  by (simp_all add: drift_a_def)

lemma drift_stage1:
  "stage1_rounded f32 drift_cfg [Finite 0] [Finite (- (95/256))] = Finite drift_a"
  using drift_a_range
  by (simp add: stage1_rounded_def drift_posteriors fsub_def f32_drift f32_exp_drift)

lemma drift_stage2:
  "stage2_rounded f32 drift_cfg [Finite 0] [Finite (- (95/256))] (Finite drift_a)
   = Finite (16777215 / 16777216)"
  using drift_a_range
  by (simp add: stage2_rounded_def drift_posteriors_inner fsub_def f32_drift f32_exp_drift
      f32_recip_drift f32_product_drift)

text \<open>
  The product of \<open>a\<close> and the rounded reciprocal of \<open>a\<close> rounds to the number below
  \<open>1\<close> also at the two binary32 neighbours of \<open>drift_a\<close>.
\<close>

lemma cancel_below_one:
  fixes a :: real and k :: int
  assumes "1/2 < a" and "a < 1"
      and "of_int k - 1/2 < 1 / a * 2 ^ 23" and "1 / a * 2 ^ 23 < of_int k + 1/2"
      and "16777215 - 1/2 < a * (of_int k / 2 ^ 23) * 2 ^ 24"
      and "a * (of_int k / 2 ^ 23) * 2 ^ 24 < 16777215 + 1/2"
  shows "f32 (a * f32 (1 / a)) = 16777215 / 16777216"
proof -
  have "1 < 1 / a" and "1 / a < 2" using assms(1,2) by (simp_all add: field_simps)
  moreover have "\<bar>1 / a\<bar> = 1 / a" using assms(1) by simp
  ultimately have lo: "1 / 2 ^ 0 \<le> \<bar>1 / a\<bar>" and hi: "\<bar>1 / a\<bar> < 2 / 2 ^ 0"
    by (simp_all del: abs_divide)
  have "round_even (1 / a * 2 ^ (0 + 23)) = k"
    using assms(3,4) by (intro round_even_eqI) simp_all
  then have r: "f32 (1 / a) = of_int k / 2 ^ 23"
    using f32_binade [OF lo hi] by simp
  let ?p = "a * (of_int k / 2 ^ 23)"
  have plo: "1 / 2 ^ 1 \<le> \<bar>?p\<bar>" using assms(5) by simp
  have phi: "\<bar>?p\<bar> < 2 / 2 ^ 1" using assms(5,6) by simp
  have "round_even (?p * 2 ^ (1 + 23)) = 16777215"
    using assms(5,6) by (intro round_even_eqI) simp_all
  then have "f32 ?p = 16777215 / 16777216"
    using f32_binade [OF plo phi] by simp
  then show ?thesis by (simp only: r)
qed

lemma drift_neighbours:
  "f32 (11575930 / 2 ^ 24 * f32 (1 / (11575930 / 2 ^ 24))) = 16777215 / 16777216"
  "f32 (11575932 / 2 ^ 24 * f32 (1 / (11575932 / 2 ^ 24))) = 16777215 / 16777216"
  by (rule cancel_below_one [where k = 12157769]; simp)
     (rule cancel_below_one [where k = 12157767]; simp)

text \<open>
  Claim C6, as the program has it. If the fine oracle is the coarse oracle and the
  log-posterior is finite at the current point and at the proposal, then the second-stage
  probability computed from the first-stage probability \<open>a\<close> of that proposal,
  \<open>min 1 (exp (logpost_fine theta' - logpost_fine theta) * (1/a))\<close>, equals \<open>1\<close> up to
  the rounding of the operations: when each operation has a relative rounding error of at
  most \<open>\<delta> < 1\<close>, it is at most \<open>1\<close> and at least \<open>(1 - \<delta>)^2\<close>. In exact
  arithmetic (\<open>\<delta> = 0\<close>) it is exactly \<open>1\<close>; in binary32 (\<open>\<delta> = 2^-24\<close>) it need
  not be.
\<close>

theorem identical_oracles_stage2_rounded:
  assumes "log_likelihood_inner cfg = log_likelihood_outer cfg"
      and "log_posterior_outer_rounded rnd cfg th = Finite l"
      and "log_posterior_outer_rounded rnd cfg th' = Finite l'"
      and "0 \<le> \<delta>" and "\<delta> < 1"
      and "\<And>y. \<bar>rnd y - y\<bar> \<le> \<delta> * \<bar>y\<bar>"
  shows "\<exists>a2. stage2_rounded rnd cfg th th' (stage1_rounded rnd cfg th th') = Finite a2
              \<and> (1 - \<delta>)\<^sup>2 \<le> a2 \<and> a2 \<le> 1"
proof -
  define e where "e = rnd (exp (rnd (l' - l)))"
  define a where "a = min e 1"
  define r where "r = rnd (1 / a)"
  have c: "0 < 1 - \<delta>" using assms(5) by simp
  have inner: "log_posterior_inner_rounded rnd cfg = log_posterior_outer_rounded rnd cfg"
    using assms(1)
    by (simp add: log_posterior_inner_rounded_def log_posterior_outer_rounded_def fun_eq_iff)
  have "(1 - \<delta>) * exp (rnd (l' - l)) \<le> e"
    unfolding e_def by (rule rounding_lower [OF assms(6)]) simp
  moreover have "0 < (1 - \<delta>) * exp (rnd (l' - l))" using c by simp
  ultimately have epos: "0 < e" by linarith
  then have apos: "0 < a" and ae: "a \<le> e" by (simp_all add: a_def)
  have s1: "stage1_rounded rnd cfg th th' = Finite a"
    using assms(2,3) by (simp add: stage1_rounded_def fsub_def e_def a_def)
  have s2: "stage2_rounded rnd cfg th th' (Finite a) = Finite (min (rnd (e * r)) 1)"
    using assms(2,3) apos
    by (simp add: stage2_rounded_def inner fsub_def e_def r_def)
  have "(1 - \<delta>) * (1 / a) \<le> r"
    unfolding r_def using apos by (intro rounding_lower [OF assms(6)]) simp
  then have "e * ((1 - \<delta>) * (1 / a)) \<le> e * r"
    using epos by (intro mult_left_mono) simp_all
  moreover have "1 \<le> e / a" using ae apos by simp
  then have "(1 - \<delta>) * 1 \<le> (1 - \<delta>) * (e / a)"
    using c by (intro mult_left_mono) simp_all
  ultimately have er: "1 - \<delta> \<le> e * r" by (simp add: field_simps)
  then have erpos: "0 \<le> e * r" using c by linarith
  have "(1 - \<delta>) * (e * r) \<le> rnd (e * r)"
    by (rule rounding_lower [OF assms(6) erpos])
  moreover have "(1 - \<delta>) * (1 - \<delta>) \<le> (1 - \<delta>) * (e * r)"
    using er c by (intro mult_left_mono) simp_all
  ultimately have "(1 - \<delta>)\<^sup>2 \<le> rnd (e * r)" by (simp add: power2_eq_square)
  moreover have "(1 - \<delta>)\<^sup>2 \<le> 1"
    using assms(4) c by (simp add: power_le_one)
  ultimately have "(1 - \<delta>)\<^sup>2 \<le> min (rnd (e * r)) 1" by simp
  then show ?thesis using s1 s2 by simp
qed

theorem identical_oracles_stage2_rounded_witness:
  "log_likelihood_inner drift_cfg = log_likelihood_outer drift_cfg
   \<and> log_posterior_outer_rounded f32 drift_cfg [Finite 0] = Finite 0
   \<and> log_posterior_outer_rounded f32 drift_cfg [Finite (- (95/256))] = Finite (- (95/256))
   \<and> (0::real) \<le> 1 / 2 ^ 24 \<and> (1::real) / 2 ^ 24 < 1
   \<and> (\<exists>a2. stage2_rounded f32 drift_cfg [Finite 0] [Finite (- (95/256))]
                (stage1_rounded f32 drift_cfg [Finite 0] [Finite (- (95/256))]) = Finite a2
             \<and> (1 - 1 / 2 ^ 24)\<^sup>2 \<le> a2 \<and> a2 \<le> 1)"
proof -
  have i: "log_likelihood_inner drift_cfg = log_likelihood_outer drift_cfg"
    by (simp add: drift_cfg_def)
  have d0: "(0::real) \<le> 1 / 2 ^ 24" and d1: "(1::real) / 2 ^ 24 < 1" by simp_all
  have r: "\<And>y. \<bar>f32 y - y\<bar> \<le> 1 / 2 ^ 24 * \<bar>y\<bar>"
    using f32_error by simp
  from identical_oracles_stage2_rounded [OF i drift_posteriors d0 d1 r] i drift_posteriors d0 d1
  show ?thesis by blast
qed

text \<open>
  With identical oracles, log-posterior \<open>0\<close> at the current point and \<open>-95/256\<close> at the
  proposal, binary32 gives the first-stage probability \<open>11575931 / 2^24\<close>, and the
  second-stage probability \<open>1 - 2^-24\<close>.
\<close>

theorem identical_oracles_stage2_counterexample:
  "log_likelihood_inner drift_cfg = log_likelihood_outer drift_cfg
   \<and> stage1_rounded f32 drift_cfg [Finite 0] [Finite (- (95/256))] = Finite (11575931 / 16777216)
   \<and> stage2_rounded f32 drift_cfg [Finite 0] [Finite (- (95/256))]
         (stage1_rounded f32 drift_cfg [Finite 0] [Finite (- (95/256))])
       = Finite (16777215 / 16777216)
   \<and> Finite (16777215 / 16777216) \<noteq> Finite 1"
proof -
  have i: "log_likelihood_inner drift_cfg = log_likelihood_outer drift_cfg"
    by (simp add: drift_cfg_def)
  have a: "drift_a = 11575931 / 16777216" by (simp add: drift_a_def)
  show ?thesis using i drift_stage2 by (simp add: drift_stage1 a [symmetric])
qed

section \<open>Proposal of the delayed-acceptance driver\<close>

lemma da_proposal_langevin:
  "proposal_type cfg = langevin \<Longrightarrow> da_proposal cfg th d r = Inl AttributeError"
  by (simp add: da_proposal_def)

text \<open>The proposal of the single-stage driver computes the langevin step.\<close>

lemma mh_proposal_langevin:
  "proposal_type cfg = langevin \<Longrightarrow>
   mh_proposal cfg th d r =
     Inr (map (\<lambda>(t, g, z). fadd (fadd t (fmul (fmul (Finite 0.5) d) g)) (fmul d (Finite z)))
            (zip th (zip (grad_log_likelihood cfg th) (stake (length th) (normals r)))),
          r\<lparr>normals := sdrop (length th) (normals r)\<rparr>)"
  by (simp add: mh_proposal_def langevin_step_def randn_like_def)

text \<open>
  Claim C8 says that the proposal of the delayed-acceptance driver in langevin mode
  returns \<open>theta + 0.5 * dt * grad + dt * noise\<close>. On the program it raises
  AttributeError: here at \<open>theta = [0]\<close> and \<open>dt = 0.1\<close>.
\<close>

theorem da_proposal_langevin_raises:
  "da_proposal (ex_cfg\<lparr>proposal_type := langevin\<rparr>) [Finite 0] (Finite (1/10)) ex_rng
   = Inl AttributeError"
  by (simp add: da_proposal_def)

section \<open>Single-stage driver: the acceptance rate\<close>

lemma mh_step_accepted:
  "mh_step cfg verbose i st = Inr st' \<Longrightarrow>
   accepted_proposals st' \<le> accepted_proposals st + 1"
  by (auto simp: mh_step_def Let_def split: sum.splits prod.splits if_splits)

lemma mh_loop_accepted:
  "mh_loop cfg verbose js st = Inr st' \<Longrightarrow>
   accepted_proposals st' \<le> accepted_proposals st + length js"
proof (induction js arbitrary: st)
  case Nil
  then show ?case by simp
next
  case (Cons j js)
  then obtain st1 where s: "mh_step cfg verbose j st = Inr st1"
    and l: "mh_loop cfg verbose js st1 = Inr st'"
    by (auto split: sum.splits)
  from mh_step_accepted [OF s] Cons.IH [OF l] show ?case by simp
qed

text \<open>
  The rate that the driver returns counts the acceptances of all
  \<open>nsamples + burnin\<close> iterations over \<open>nsamples\<close>: it lies between \<open>0\<close> and
  \<open>(nsamples + burnin) / nsamples\<close>.
\<close>

lemma mh_run_chain_rate:
  assumes "mh_run_chain cfg verbose r = Inr (out, rate)"
  shows "0 \<le> rate \<and> rate \<le> real (nsamples cfg + burnin cfg) / real (nsamples cfg)"
proof -
  from assms obtain st where
    l: "mh_loop cfg verbose [0 ..< nsamples cfg + burnin cfg] (mh_init cfg r) = Inr st"
    and n: "nsamples cfg \<noteq> 0"
    and rate: "rate = real (accepted_proposals st) / real (nsamples cfg)"
    by (auto simp: mh_run_chain_def split: sum.splits if_splits)
  have "accepted_proposals (mh_init cfg r) = 0"
    by (simp add: mh_init_def split: prod.splits)
  with mh_loop_accepted [OF l] have "accepted_proposals st \<le> nsamples cfg + burnin cfg"
    by simp
  then have "real (accepted_proposals st) \<le> real (nsamples cfg + burnin cfg)"
    by (simp only: of_nat_le_iff)
  with n show ?thesis unfolding rate
    by (simp add: divide_right_mono)
qed

text \<open>
  Claim C2 says that the returned acceptance rate is the accepted count over \<open>nsamples\<close>
  and lies in \<open>[0, 1]\<close>. On the program, with one burn-in iteration, one sample and both
  proposals accepted, the returned rate is \<open>2\<close>.
\<close>

theorem mh_rate_exceeds_one:
  "mh_run_chain ex_mh False calm_rng = Inr ([[Finite 0]], 2)"
  by (simp add: mh_run_chain_def ex_mh_def calm_rng_def mh_init_def uniform_init_def upt_two
      mh_step_def mh_proposal_def random_walk_step_def normal_zero_mean_def randn_like_def
      acceptance_def rand1_def fsub_def adapt_def Let_def nv_log_prior_def fle_def)

section \<open>Regularized prior: log-probability and sampler\<close>

lemma log_prob_entry:
  assumes "0 < l" and "lam p = Finite l"
  shows "log_prob p (map Finite xs) =
         map (\<lambda>x. Finite (- ((max (\<bar>x\<bar> - 1) 0)\<^sup>2) / (2 * l) - ln (2 + sqrt (2 * pi * l)))) xs"
proof -
  have s: "0 \<le> 2 * pi * l" using assms(1) by simp
  have "0 \<le> sqrt (2 * pi * l)" using s by simp
  then have pos: "0 < 2 + sqrt (2 * pi * l)" by linarith
  show ?thesis
    using assms s pos
    by (simp add: log_prob_def regularization_term_def fpow2_def fsub_def power2_eq_square
        mult.assoc)
qed

lemma foldl_fadd_Finite: "foldl fadd (Finite a) (map Finite xs) = Finite (a + sum_list xs)"
  by (induction xs arbitrary: a) (simp_all add: add.assoc)

lemma fsum_Finite: "fsum (map Finite xs) = Finite (sum_list xs)"
  by (simp add: fsum_def foldl_fadd_Finite)

text \<open>
  Claim C7, as the program has it. For every real vector \<open>x\<close> and every \<open>lam > 0\<close>,
  \<open>log_prob\<close> returns a vector of the length of \<open>x\<close> whose entry at each coordinate is
  the penalty \<open>- (max (|x_i| - 1) 0)^2 / (2 * lam)\<close> minus the constant
  \<open>ln (2 + sqrt (2 * pi * lam))\<close>. No sum is taken; the sum of the entries is the scalar
  that the specification describes.
\<close>

theorem log_prob_elementwise:
  assumes "0 < l" and "lam p = Finite l"
  shows "log_prob p (map Finite xs) =
           map (\<lambda>x. Finite (- ((max (\<bar>x\<bar> - 1) 0)\<^sup>2) / (2 * l) - ln (2 + sqrt (2 * pi * l)))) xs
       \<and> length (log_prob p (map Finite xs)) = length xs
       \<and> fsum (log_prob p (map Finite xs)) = Finite (log_prob_spec l xs)"
proof -
  let ?f = "\<lambda>x. - ((max (\<bar>x\<bar> - 1) 0)\<^sup>2) / (2 * l) - ln (2 + sqrt (2 * pi * l))"
  have e: "log_prob p (map Finite xs) = map Finite (map ?f xs)"
    using log_prob_entry [OF assms, of xs] by (simp add: comp_def)
  have "fsum (log_prob p (map Finite xs)) = Finite (sum_list (map ?f xs))"
    unfolding e by (rule fsum_Finite)
  then show ?thesis using e by (simp add: log_prob_spec_def comp_def)
qed

theorem log_prob_elementwise_witness:
  "(0::real) < 1 \<and> lam unit_prior = Finite 1
   \<and> log_prob unit_prior (map Finite [0, 2]) =
       [Finite (- ln (2 + sqrt (2 * pi))), Finite (- (1/2) - ln (2 + sqrt (2 * pi)))]
   \<and> length (log_prob unit_prior (map Finite [0, 2])) = 2
   \<and> fsum (log_prob unit_prior (map Finite [0, 2])) = Finite (log_prob_spec 1 [0, 2])"
proof -
  have z: "(0::real) < 1" by simp
  have l: "lam unit_prior = Finite 1" by (simp add: unit_prior_def)
  note t = log_prob_elementwise [OF z l, of "[0, 2]"]
  have e: "log_prob unit_prior (map Finite [0, 2]) =
       [Finite (- ln (2 + sqrt (2 * pi))), Finite (- (1/2) - ln (2 + sqrt (2 * pi)))]"
    using t by simp
  have n: "length (log_prob unit_prior (map Finite [0, 2])) = 2"
    using t by simp
  have f: "fsum (log_prob unit_prior (map Finite [0, 2])) = Finite (log_prob_spec 1 [0, 2])"
    using t by blast
  from z l e n f show ?thesis by blast
qed

text \<open>
  On the vector \<open>[0, 2]\<close> the result has two entries; it is not the one scalar
  \<open>log_prob_spec 1 [0, 2]\<close>.
\<close>

theorem log_prob_not_scalar_counterexample:
  "length (log_prob unit_prior [Finite 0, Finite 2]) = 2
   \<and> log_prob unit_prior [Finite 0, Finite 2] \<noteq> [Finite (log_prob_spec 1 [0, 2])]"
  by (simp add: log_prob_def regularization_term_def)





section \<open>Seeds of the parallel chains\<close>

lemma draw_seeds_fst:
  "fst (draw_seeds n r) = map (\<lambda>i. (randints r !! i) mod 100000) [0 ..< n]"
proof (induction n arbitrary: r)
  case 0
  show ?case by simp
next
  case (Suc n)
  let ?r = "r\<lparr>randints := stl (randints r)\<rparr>"
  obtain ss r'' where d: "draw_seeds n ?r = (ss, r'')" by (cases "draw_seeds n ?r")
  with Suc.IH [of ?r] have ss: "ss = map (\<lambda>i. (randints r !! Suc i) mod 100000) [0 ..< n]"
    by simp
  have "fst (draw_seeds (Suc n) r) = (randints r !! 0) mod 100000 # ss"
    by (simp add: randint_def d)
  also have "\<dots> = map (\<lambda>i. (randints r !! i) mod 100000) [0 ..< Suc n]"
    unfolding ss by (simp only: map_upt_Suc)
  finally show ?case .
qed

text \<open>
  Claim C10, as the program has it. For every number of chains, the seed of the \<open>i\<close>-th
  execution is the \<open>i\<close>-th of the independently drawn seeds, a value in
  \<open>[0, 100000)\<close>. Nothing makes two of them differ: two executions have the same seed
  whenever their draws coincide.
\<close>

theorem run_chains_seeds:
  "map fst (run_chains manual_seed cfg nchains r)
   = map (\<lambda>i. (randints r !! i) mod 100000) [0 ..< nchains]"
proof -
  have len: "length (fst (draw_seeds nchains r)) = nchains"
    by (simp add: draw_seeds_fst)
  have "map fst (run_chains manual_seed cfg nchains r)
        = map (\<lambda>i. fst (draw_seeds nchains r) ! i) [0 ..< nchains]"
    by (simp add: run_chains_def Let_def comp_def)
  also have "\<dots> = fst (draw_seeds nchains r)"
    using len by (metis map_nth)
  finally show ?thesis by (simp add: draw_seeds_fst)
qed

text \<open>With two chains and two equal draws the two seeds are equal.\<close>

theorem run_chains_seeds_counterexample:
  "\<not> distinct (map fst (run_chains (\<lambda>_. calm_rng) ex_mh 2 calm_rng))"
  by (simp add: run_chains_def two_Suc randint_def calm_rng_def Let_def upt_two)

end
